theory Spec2Isabelle
  imports Complex_Main "HOL-Library.Char_ord" "HOL-Library.List_Lexorder"
begin

section \<open>Boundary documents as read by \<^verbatim>\<open>fix_data.py\<close>\<close>

text \<open>
  A boundary document is a GeoJSON feature collection. A position is a pair of JSON
  numbers (longitude first, latitude second: the source reads \<^verbatim>\<open>p[0]\<close> and
  \<^verbatim>\<open>p[1]\<close>), a ring a list of positions, a Polygon a list of rings and a
  MultiPolygon a list of polygons. JSON numbers are taken as exact reals: the rounding error
  of Python's binary floating point is not part of this model. The source branches on the
  geometry's \<^verbatim>\<open>type\<close> string and does nothing for a type other than
  \<^verbatim>\<open>'Polygon'\<close> and \<^verbatim>\<open>'MultiPolygon'\<close>; such a geometry keeps
  its type name here.

  The properties the scripts read are \<^verbatim>\<open>id\<close> (always by subscript, so a feature
  has one), \<^verbatim>\<open>Name\<close> and \<^verbatim>\<open>normalizedName\<close> (read with
  \<^verbatim>\<open>.get(key, '')\<close>, so they may be absent).
\<close>

type_synonym point = "real \<times> real"
type_synonym ring = "point list"

datatype geometry =
    Polygon "ring list"
  | MultiPolygon "ring list list"
  | OtherGeometry string

record feature =
  fid :: string
  Name :: "string option"
  normalizedName :: "string option"
  geometry :: geometry

subsection \<open>Ring orientation (\<^verbatim>\<open>ring_signed_area\<close>, \<^verbatim>\<open>fix_winding_order\<close>)\<close>










subsection \<open>Identifier reconciliation (\<^verbatim>\<open>fix_boundary_files\<close>)\<close>

text \<open>The rename tables \<^verbatim>\<open>BOUNDARY_RENAMES\<close>, one per boundary version, as written in the source.\<close>

definition renames_1955 :: "(string \<times> string) list" where
  "renames_1955 =
    [(''EC_BARON_S_COURT'', ''EC_BARONS_COURT''),
     (''EC_BUTE_AND_AYRSHIRE_NORTH'', ''EC_AYRSHIRE_NORTH_AND_BUTE''),
     (''EC_CITIES_OF_LONDON_AND_WESTMISTER'', ''EC_CITIES_OF_LONDON_AND_WESTMINSTER''),
     (''EC_CITY_OF_CHESTER'', ''EC_CHESTER__CITY_OF''),
     (''EC_CLACKMANNAN_AND_EAST_STIRLINGSHIRE'', ''EC_STIRLINGSHIRE_EAST_AND_CLACKMANNAN''),
     (''EC_DUNFERMLINE_BURGHS'', ''EC_DUNFERMLINE''),
     (''EC_DURHAM'', ''EC_DURHAM__CITY_OF''),
     (''EC_KINGSTON_UPON_HULL_EAST'', ''EC_HULL_EAST''),
     (''EC_KINGSTON_UPON_HULL_NORTH'', ''EC_HULL_NORTH''),
     (''EC_KINGSTON_UPON_HULL_WEST'', ''EC_HULL_WEST''),
     (''EC_KIRKCALDY_BURGHS'', ''EC_KIRKCALDY''),
     (''EC_LLANELLY'', ''EC_LLANELLI''),
     (''EC_MANSFIIELD'', ''EC_MANSFIELD''),
     (''EC_STRATFORD'', ''EC_STRATFORD_ON_AVON''),
     (''EC_THE_HARTLEPOOLS'', ''EC_HARTLEPOOLS__THE''),
     (''EC_THE_WREKIN'', ''EC_WREKIN__THE''),
     (''EC_WOLVERHAMTON_NORTH_EAST'', ''EC_WOLVERHAMPTON_NORTH_EAST''),
     (''EC_WOLVERHAMTON_SOUTH_WEST'', ''EC_WOLVERHAMPTON_SOUTH_WEST''),
     (''EC__WANSTEAD_AND___WOODFORD'', ''EC_WANSTEAD_AND_WOODFORD''),
     (''EC_YORK'', ''EC_YORK__CITY_OF'')]"

definition renames_1974 :: "(string \<times> string) list" where
  "renames_1974 =
    [(''EC_ASHTON_UNDER_LINE'', ''EC_ASHTON_UNDER_LYNE''),
     (''EC_BIRMINGHA_SELLY_OAK'', ''EC_BIRMINGHAM_SELLY_OAK''),
     (''EC_BUTE_AND_AYRSHIRE_NORTH'', ''EC_AYRSHIRE_NORTH_AND_BUTE''),
     (''EC_CITY_OF_CHESTER'', ''EC_CHESTER__CITY_OF''),
     (''EC_CITY_OF_LONDON_AND_WESTMISTER_SOUTH'', ''EC_CITY_OF_LONDON_AND_WESTMINSTER_SOUTH''),
     (''EC_CLACKMANNAN_AND_EAST_STIRLINGSHIRE'', ''EC_STIRLINGSHIRE_EAST_AND_CLACKMANNAN''),
     (''EC_DURHAM'', ''EC_DURHAM__CITY_OF''),
     (''EC_GASGOW_SHETTLESTON'', ''EC_GLASGOW_SHETTLESTON''),
     (''EC_KINGSTON_UPON_HULL_CENTRAL'', ''EC_HULL_CENTRAL''),
     (''EC_KINGSTON_UPON_HULL_EAST'', ''EC_HULL_EAST''),
     (''EC_KINGSTON_UPON_HULL_WEST'', ''EC_HULL_WEST''),
     (''EC_NOTTINGHSM_WEST'', ''EC_NOTTINGHAM_WEST''),
     (''EC_OXON_MID'', ''EC_OXFORDSHIRE_MID''),
     (''EC_ROYAL_TUNBRIDGE_WELLS'', ''EC_TUNBRIDGE_WELLS''),
     (''EC_THE_WREKIN'', ''EC_WREKIN__THE''),
     (''EC_WOLVERHAMTON_NORTH_EAST'', ''EC_WOLVERHAMPTON_NORTH_EAST''),
     (''EC_YORK'', ''EC_YORK__CITY_OF'')]"

definition renames_1983 :: "(string \<times> string) list" where
  "renames_1983 =
    [(''EC_BIRKENDHEAD'', ''EC_BIRKENHEAD''),
     (''EC_CARRICK__CUMNOCK_AND_DOON_VALLEY'', ''EC_CARRICK''),
     (''EC_CITY_OF_CHESTER'', ''EC_CHESTER__CITY_OF''),
     (''EC_CITY_OF_DURHAM'', ''EC_DURHAM__CITY_OF''),
     (''EC_DEVON_WEST_AND_TORRIDGE'', ''EC_TORRIDGE_AND_WEST_DEVON''),
     (''EC_GLLINGHAM'', ''EC_GILLINGHAM''),
     (''EC_INVERNESS__NAIRN_AND_LOCHABER'', ''EC_INVERNESS''),
     (''EC_KILMARNOCK_AND_LOUDON'', ''EC_KILMARNOCK_AND_LOUDOUN''),
     (''EC_LEEDS_SOUTH_AND_MORLEY'', ''EC_MORLEY_AND_LEEDS_SOUTH''),
     (''EC_LINDSEY_EAST'', ''EC_EAST_LINDSEY''),
     (''EC_ROSS__CROMARTY_AND_SKYE'', ''EC_ROSS''),
     (''EC_SHEFFIELD_HILLBOROUGH'', ''EC_SHEFFIELD_HILLSBOROUGH''),
     (''EC_THE_WREKIN'', ''EC_WREKIN__THE''),
     (''EC_TWEEDDALE__ETTRICK_AND_LAUDERDALE'', ''EC_TWEEDDALE''),
     (''EC_WOLVERHMAPTON_NORTH_EAST'', ''EC_WOLVERHAMPTON_NORTH_EAST''),
     (''EC_YNYS_MON'', ''EC_YNYS_MON___ANGLESEY''),
     (''EC_YORK'', ''EC_YORK__CITY_OF'')]"

definition renames_1997 :: "(string \<times> string) list" where
  "renames_1997 =
    [(''EC_CAITHNESS__SUTHERLAND_AND_EASTER_ROSS'', ''EC_CAITHNESS_SUTHERLAND_AND_EASTER_ROSS''),
     (''EC_CARRICK__CUMNOCK_AND_DOON_VALLEY'', ''EC_CARRICK_CUMNOCK_AND_DOON_VALLEY''),
     (''EC_CITY_OF_CHESTER'', ''EC_CHESTER__CITY_OF''),
     (''EC_CITY_OF_DURHAM'', ''EC_DURHAM__CITY_OF''),
     (''EC_CITY_OF_YORK'', ''EC_YORK__CITY_OF''),
     (''EC_GREAT_GRIMSBBY'', ''EC_GREAT_GRIMSBY''),
     (''EC_INVERNESS_E__NAIRN_AND_LOCHABER'', ''EC_INVERNESS_EAST_NAIRN_AND_LOCHABER''),
     (''EC_KILMARNOCK_AND_LOUDON'', ''EC_KILMARNOCK_AND_LOUDOUN''),
     (''EC_ROSS__SKYE_AND_INVERNESS_WEST'', ''EC_ROSS_SKYE_AND_INVERNESS_WEST''),
     (''EC_SHEFFILED_BRIGHTSIDE'', ''EC_SHEFFIELD_BRIGHTSIDE''),
     (''EC_SHEFFILED_CENTRAL'', ''EC_SHEFFIELD_CENTRAL''),
     (''EC_SHEFFILED_HEELEY'', ''EC_SHEFFIELD_HEELEY''),
     (''EC_SOUTHHAMPTON_ITCHIN'', ''EC_SOUTHAMPTON_ITCHEN''),
     (''EC_THE_WREKIN'', ''EC_WREKIN__THE''),
     (''EC_TWEEDDALE__ETTRICK_AND_LAUDERDALE'', ''EC_TWEEDDALE_ETTRICK_AND_LAUDERDALE'')]"

definition renames_2005 :: "(string \<times> string) list" where
  "renames_2005 =
    [(''EC_AIDRIE_AND_SHOTTS'', ''EC_AIRDRIE_AND_SHOTTS''),
     (''EC_AYR__CARRICK_AND_CUMNOCK'', ''EC_AYR_CARRICK_AND_CUMNOCK''),
     (''EC_CAITHNESS__SUTHERLAND_AND_EASTER_ROSS'', ''EC_CAITHNESS_SUTHERLAND_AND_EASTER_ROSS''),
     (''EC_CITY_OF_CHESTER'', ''EC_CHESTER__CITY_OF''),
     (''EC_CITY_OF_DURHAM'', ''EC_DURHAM__CITY_OF''),
     (''EC_CITY_OF_YORK'', ''EC_YORK__CITY_OF''),
     (''EC_GREAT_GRIMSBBY'', ''EC_GREAT_GRIMSBY''),
     (''EC_INVERNESS__NAIRN__BADENOCH_AND_STRATHSPEY'', ''EC_INVERNESS_NAIRN_BADENOCH_AND_STRATHSPEY''),
     (''EC_KILMARNOCK_AND_LOUDON'', ''EC_KILMARNOCK_AND_LOUDOUN''),
     (''EC_LINLITHGOW_AND_FALKIRK_EAST'', ''EC_LINLITHGOW_AND_EAST_FALKIRK''),
     (''EC_NA_H_EILEANAN_AN_IAR'', ''EC_NA_H_EILEANAN_AN_IAR__WESTERN_ISLES_''),
     (''EC_ROSS__SKYE_AND_LOCHABER'', ''EC_ROSS_SKYE_AND_LOCHABER''),
     (''EC_SHEFFILED_BRIGHTSIDE'', ''EC_SHEFFIELD_BRIGHTSIDE''),
     (''EC_SHEFFILED_CENTRAL'', ''EC_SHEFFIELD_CENTRAL''),
     (''EC_SHEFFILED_HEELEY'', ''EC_SHEFFIELD_HEELEY''),
     (''EC_SOUTHHAMPTON_ITCHIN'', ''EC_SOUTHAMPTON_ITCHEN''),
     (''EC_THE_WREKIN'', ''EC_WREKIN__THE'')]"

definition renames_2010 :: "(string \<times> string) list" where
  "renames_2010 =
    [(''EC_AIDRIE_AND_SHOTTS'', ''EC_AIRDRIE_AND_SHOTTS''),
     (''EC_AYR__CARRICK_AND_CUMNOCK'', ''EC_AYR_CARRICK_AND_CUMNOCK''),
     (''EC_BRIDGWATER_AND_SOMERSET_WEST'', ''EC_BRIDGWATER_AND_WEST_SOMERSET''),
     (''EC_CAITHNESS__SUTHERLAND_AND_EASTER_ROSS'', ''EC_CAITHNESS_SUTHERLAND_AND_EASTER_ROSS''),
     (''EC_CANBRIDGESHIRE_SOUTH_EAST'', ''EC_CAMBRIDGESHIRE_SOUTH_EAST''),
     (''EC_CITY_OF_CHESTER'', ''EC_CHESTER__CITY_OF''),
     (''EC_CITY_OF_DURHAM'', ''EC_DURHAM__CITY_OF''),
     (''EC_GREAT_GRIMSBBY'', ''EC_GREAT_GRIMSBY''),
     (''EC_HEREFORD_AND_HEREFORDSHIRE_SOUTH'', ''EC_HEREFORD_AND_SOUTH_HEREFORDSHIRE''),
     (''EC_INVERNESS__NAIRN__BADENOCH_AND_STRATHSPEY'', ''EC_INVERNESS_NAIRN_BADENOCH_AND_STRATHSPEY''),
     (''EC_KILMARNOCK_AND_LOUDON'', ''EC_KILMARNOCK_AND_LOUDOUN''),
     (''EC_LINLITHGOW_AND_FALKIRK_EAST'', ''EC_LINLITHGOW_AND_EAST_FALKIRK''),
     (''EC_MORCAMBE_AND_LUNESDALE'', ''EC_MORECAMBE_AND_LUNESDALE''),
     (''EC_NA_H_EILEANAN_AN_IAR'', ''EC_NA_H_EILEANAN_AN_IAR__WESTERN_ISLES_''),
     (''EC_NORTHAMAPTON_SOUTH'', ''EC_NORTHAMPTON_SOUTH''),
     (''EC_ROSS__SKYE_AND_LOCHABER'', ''EC_ROSS_SKYE_AND_LOCHABER''),
     (''EC_SOUTH_RIBBLE'', ''EC_RIBBLE_SOUTH''),
     (''EC_SUUFOLK_WEST'', ''EC_SUFFOLK_WEST''),
     (''EC_THE_COTSWOLDS'', ''EC_COTSWOLDS__THE''),
     (''EC_THE_WREKIN'', ''EC_WREKIN__THE'')]"

definition renames_2024 :: "(string \<times> string) list" where
  "renames_2024 =
    [(''EC_AYR_CARRICK_AND_CUMNOCK'', ''EC_AYR__CARRICK_AND_CUMNOCK''),
     (''EC_CAERFYRDDIN'', ''EC_CAERFYRDDIN__CARMARTHEN_''),
     (''EC_CITY_OF_DURHAM'', ''EC_DURHAM__CITY_OF''),
     (''EC_DORSET_MID_AND_POOLE_NORTH'', ''EC_DORSET_MID_AND_NORTH_POOLE''),
     (''EC_FAVERSHAM_AND_KENT_MID'', ''EC_FAVERSHAM_AND_MID_KENT''),
     (''EC_KILMARNOCK_AND_LOUDON'', ''EC_KILMARNOCK_AND_LOUDOUN''),
     (''EC_MIDDLESBROUGH_SOUTH_AND_CLEVELAND_EAST'', ''EC_MIDDLESBROUGH_SOUTH_AND_EAST_CLEVELAND''),
     (''EC_MORAY_W__NAIRN_AND_STRATHSPEY'', ''EC_MORAY_WEST__NAIRN_AND_STRATHSPEY''),
     (''EC_NA_H_EILEANAN_AN_IAR'', ''EC_NA_H_EILEANAN_AN_IAR__WESTERN_ISLES_''),
     (''EC_OLDHAM_W__CHADDERTON_AND_ROYTON'', ''EC_OLDHAM_WEST__CHADDERTON_AND_ROYTON''),
     (''EC_SUFFOLK_CENTRAL_AND_IPSWICH_NORTH'', ''EC_SUFFOLK_CENTRAL_AND_NORTH_IPSWICH''),
     (''EC_THE_WREKIN'', ''EC_WREKIN__THE''),
     (''EC_YNYS_M_N'', ''EC_YNYS_MON__ANGLESEY_'')]"
definition BOUNDARY_RENAMES :: "(string \<times> (string \<times> string) list) list" where
  "BOUNDARY_RENAMES =
    [(''1955'', renames_1955), (''1974'', renames_1974), (''1983'', renames_1983),
     (''1997'', renames_1997), (''2005'', renames_2005), (''2010'', renames_2010),
     (''2024'', renames_2024)]"

definition RICHMOND_SPLIT_VERSIONS :: "string list" where
  "RICHMOND_SPLIT_VERSIONS = [''1955'', ''1974'']"

definition EMPTY_FEATURE_VERSIONS :: "string list" where
  "EMPTY_FEATURE_VERSIONS = [''1997'', ''2005'']"

definition DEDUP_VERSIONS :: "string list" where
  "DEDUP_VERSIONS = [''2010'']"

text \<open>
  \<^verbatim>\<open>count_coords\<close>: \<^verbatim>\<open>total += len(ring)\<close> over the rings of a polygon, or
  over the rings of every polygon of a multi-polygon; \<open>0\<close> for any other geometry type.
\<close>

definition count_coords :: "feature \<Rightarrow> nat" where
  "count_coords feature =
     (case geometry feature of
        Polygon coords \<Rightarrow> fold (\<lambda>ring total. total + length ring) coords 0
      | MultiPolygon coords \<Rightarrow>
          fold (\<lambda>polygon total. fold (\<lambda>ring total. total + length ring) polygon total) coords 0
      | OtherGeometry t \<Rightarrow> 0)"

text \<open>
  \<^verbatim>\<open>get_centroid_lat\<close>: collect every point (\<^verbatim>\<open>all_points.extend(ring)\<close>), return
  \<open>0\<close> when there is none, else the mean of the second coordinates.
\<close>

definition all_points :: "geometry \<Rightarrow> point list" where
  "all_points geom =
     (case geom of
        Polygon coords \<Rightarrow> fold (\<lambda>ring points. points @ ring) coords []
      | MultiPolygon coords \<Rightarrow>
          fold (\<lambda>polygon points. fold (\<lambda>ring points. points @ ring) polygon points) coords []
      | OtherGeometry t \<Rightarrow> [])"

definition get_centroid_lat :: "feature \<Rightarrow> real" where
  "get_centroid_lat feature =
     (let points = all_points (geometry feature) in
      if points = [] then 0
      else sum_list (map snd points) / real (length points))"

text \<open>
  The three repair loops of \<^verbatim>\<open>fix_boundary_files\<close> have one shape: visit every
  feature, and where the test holds mutate it, set \<^verbatim>\<open>modified = True\<close> and add one
  to \<^verbatim>\<open>rename_count\<close>. \<open>for_each\<close> is that loop; the step returns the mutated
  feature, or \<open>None\<close> where the test fails. \<^verbatim>\<open>sync_boundary_names\<close> has the same
  shape with \<^verbatim>\<open>name_update_count\<close>.
\<close>

fun for_each :: "('a \<Rightarrow> 'a option) \<Rightarrow> 'a list \<Rightarrow> bool \<Rightarrow> nat \<Rightarrow> 'a list \<times> bool \<times> nat" where
  "for_each step [] modified n = ([], modified, n)"
| "for_each step (x # xs) modified n =
     (case step x of
        None \<Rightarrow>
          (case for_each step xs modified n of (xs', modified', n') \<Rightarrow> (x # xs', modified', n'))
      | Some x' \<Rightarrow>
          (case for_each step xs True (n + 1) of (xs', modified', n') \<Rightarrow> (x' # xs', modified', n')))"

definition richmond_split :: "feature \<Rightarrow> feature option" where
  "richmond_split feature =
     (if fid feature = ''EC_RICHMOND'' then
        (let lat = get_centroid_lat feature;
             (new_id, new_name) =
               (if lat > 53 then (''EC_RICHMOND__YORKS_'', ''Richmond (Yorks.)'')
                else (''EC_RICHMOND__SURREY_'', ''Richmond (Surrey)''))
         in Some (feature\<lparr>fid := new_id, Name := Some new_name, normalizedName := Some new_name\<rparr>))
      else None)"

definition empty_feature_fix :: "feature \<Rightarrow> feature option" where
  "empty_feature_fix feature =
     (if fid feature = ''EC_'' then
        Some (feature\<lparr>fid := ''EC_SOUTHEND_WEST'', Name := Some ''Southend West'',
                      normalizedName := Some ''Southend West''\<rparr>)
      else None)"

definition apply_rename :: "(string \<rightharpoonup> string) \<Rightarrow> feature \<Rightarrow> feature option" where
  "apply_rename renames feature =
     (case renames (fid feature) of
        Some new_id \<Rightarrow> Some (feature\<lparr>fid := new_id\<rparr>)
      | None \<Rightarrow> None)"

text \<open>
  The loops before deduplication, in the source's order: the latitude split (versions of
  \<^verbatim>\<open>RICHMOND_SPLIT_VERSIONS\<close>), the empty identifier (versions of
  \<^verbatim>\<open>EMPTY_FEATURE_VERSIONS\<close>), then the rename table.
\<close>

definition rename_stage :: "string \<Rightarrow> (string \<rightharpoonup> string) \<Rightarrow> feature list \<Rightarrow> feature list \<times> bool \<times> nat" where
  "rename_stage version renames features =
     (case (if version \<in> set RICHMOND_SPLIT_VERSIONS then for_each richmond_split features False 0
            else (features, False, 0)) of
        (features1, modified1, count1) \<Rightarrow>
     (case (if version \<in> set EMPTY_FEATURE_VERSIONS
            then for_each empty_feature_fix features1 modified1 count1
            else (features1, modified1, count1)) of
        (features2, modified2, count2) \<Rightarrow>
     for_each (apply_rename renames) features2 modified2 count2))"

text \<open>
  Deduplication. \<^verbatim>\<open>id_features\<close> is the \<^verbatim>\<open>defaultdict(list)\<close>: every identifier
  maps to the features carrying it, in document order, and an identifier never seen maps
  to the empty list. \<^verbatim>\<open>max(candidates, key=...)\<close> keeps the first of several maximal
  elements; it is only called on a list of more than one element.
\<close>

definition id_features :: "feature list \<Rightarrow> string \<Rightarrow> feature list" where
  "id_features features =
     fold (\<lambda>feature d. d(fid feature := d (fid feature) @ [feature])) features (\<lambda>_. [])"

definition keep_larger :: "('a \<Rightarrow> nat) \<Rightarrow> 'a \<Rightarrow> 'a \<Rightarrow> 'a" where
  "keep_larger key y best = (if key y > key best then y else best)"

fun py_max :: "('a \<Rightarrow> nat) \<Rightarrow> 'a list \<Rightarrow> 'a" where
  "py_max key (x # xs) = fold (keep_larger key) xs x"

type_synonym dedup_state = "nat \<times> feature list \<times> string set"

definition dedup_step :: "(string \<Rightarrow> feature list) \<Rightarrow> feature \<Rightarrow> dedup_state \<Rightarrow> dedup_state" where
  "dedup_step idf feature = (\<lambda>(dupe_count, deduped, seen_ids).
     if fid feature \<in> seen_ids then (dupe_count, deduped, seen_ids)
     else
       (let candidates = idf (fid feature) in
        if length candidates > 1
        then (dupe_count + (length candidates - 1),
              deduped @ [py_max count_coords candidates],
              insert (fid feature) seen_ids)
        else (dupe_count, deduped @ [candidates ! 0], insert (fid feature) seen_ids)))"

definition dedup :: "feature list \<Rightarrow> dedup_state" where
  "dedup features = fold (dedup_step (id_features features)) features (0, [], {})"

text \<open>
  The body of the loop over \<^verbatim>\<open>sorted(BOUNDARY_RENAMES.keys())\<close> for one boundary file:
  the document as left by the pass and the \<^verbatim>\<open>modified\<close> flag. A version with no rename
  table is never visited, so its document stays as it is.
\<close>

definition fix_boundary_file :: "string \<Rightarrow> feature list \<Rightarrow> feature list \<times> bool" where
  "fix_boundary_file version features0 =
     (case map_of BOUNDARY_RENAMES version of
        None \<Rightarrow> (features0, False)
      | Some table \<Rightarrow>
          (case rename_stage version (map_of table) features0 of
             (features, modified, rename_count) \<Rightarrow>
               if version \<in> set DEDUP_VERSIONS then
                 (case dedup features of
                    (dupe_count, deduped, seen_ids) \<Rightarrow>
                      if dupe_count > 0 then (deduped, True) else (features, modified))
               else (features, modified)))"

subsection \<open>Name normalization (\<^verbatim>\<open>normalize_constituency_name\<close>)\<close>

text \<open>
  A Python string is modelled as the list of its code points, for code points below 256
  (ASCII and the Latin-1 supplement); \<open>of_char\<close> is the code point. The three character
  tests are those of Python's \<^verbatim>\<open>str\<close> on that range: \<^verbatim>\<open>\s\<close> and
  \<^verbatim>\<open>strip()\<close> use \<^verbatim>\<open>str.isspace\<close>, \<^verbatim>\<open>\w\<close> is an alphanumeric character
  or the underscore, and \<^verbatim>\<open>lower()\<close> maps a cased character to its lower case.
\<close>

definition is_space :: "char \<Rightarrow> bool" where
  "is_space c =
     (let n = (of_char c :: nat) in
      (9 \<le> n \<and> n \<le> 13) \<or> (28 \<le> n \<and> n \<le> 32) \<or> n = 133 \<or> n = 160)"

definition is_word :: "char \<Rightarrow> bool" where
  "is_word c =
     (let n = (of_char c :: nat) in
      (48 \<le> n \<and> n \<le> 57) \<or> (65 \<le> n \<and> n \<le> 90) \<or> n = 95 \<or> (97 \<le> n \<and> n \<le> 122) \<or>
      n = 170 \<or> n = 178 \<or> n = 179 \<or> n = 181 \<or> n = 185 \<or> n = 186 \<or>
      (188 \<le> n \<and> n \<le> 190) \<or> (192 \<le> n \<and> n \<le> 214) \<or> (216 \<le> n \<and> n \<le> 246) \<or>
      (248 \<le> n \<and> n \<le> 255))"

definition lower_char :: "char \<Rightarrow> char" where
  "lower_char c =
     (let n = (of_char c :: nat) in
      if (65 \<le> n \<and> n \<le> 90) \<or> (192 \<le> n \<and> n \<le> 214) \<or> (216 \<le> n \<and> n \<le> 222)
      then char_of (n + 32) else c)"

text \<open>
  \<^verbatim>\<open>re.sub(r'\s*&\s*', ' and ', n)\<close>. The greedy \<^verbatim>\<open>\s*\<close> takes a whole run of
  white space; the pattern matches where the run is followed by an ampersand, and then
  takes the white space after it too. A run followed by anything else is copied, with the
  character after it.
\<close>

function sub_ampersand :: "string \<Rightarrow> string" where
  "sub_ampersand s =
     (case dropWhile is_space s of
        [] \<Rightarrow> s
      | c # rest \<Rightarrow>
          if c = CHR ''&'' then '' and '' @ sub_ampersand (dropWhile is_space rest)
          else takeWhile is_space s @ c # sub_ampersand rest)"
  by pat_completeness auto
termination
proof (relation "measure length")
  show "wf (measure length)" by simp
next
  fix s :: string and c rest
  assume "dropWhile is_space s = c # rest"
  then have "length (c # rest) \<le> length s"
    by (metis length_dropWhile_le)
  moreover have "length (dropWhile is_space rest) \<le> length rest"
    by (rule length_dropWhile_le)
  ultimately show "(dropWhile is_space rest, s) \<in> measure length" by simp
next
  fix s :: string and c rest
  assume "dropWhile is_space s = c # rest"
  then have "length (c # rest) \<le> length s"
    by (metis length_dropWhile_le)
  then show "(rest, s) \<in> measure length" by simp
qed

text \<open>\<^verbatim>\<open>n.replace('-', ' ')\<close>.\<close>

definition replace_hyphens :: "string \<Rightarrow> string" where
  "replace_hyphens s = map (\<lambda>c. if c = CHR ''-'' then CHR '' '' else c) s"

text \<open>
  \<^verbatim>\<open>re.sub(r'\bPAT\b', rep, n)\<close> and \<^verbatim>\<open>re.sub(r'\bPAT\b(?=\s|$)', rep, n)\<close> for a
  literal, non-empty \<open>pat\<close>; \<open>look\<close> says whether the look-ahead is present. The scan
  goes left to right over the original string; \<open>prev_word\<close> tells whether the character
  before the current position is a word character (false at the start of the string).
  \<^verbatim>\<open>\b\<close> holds where exactly one of the two neighbouring characters is a word
  character, the ends of the string counting as non-word.
\<close>

definition next_is :: "(char \<Rightarrow> bool) \<Rightarrow> string \<Rightarrow> bool" where
  "next_is P s = (case s of [] \<Rightarrow> False | c # _ \<Rightarrow> P c)"

definition matches_here :: "string \<Rightarrow> bool \<Rightarrow> bool \<Rightarrow> string \<Rightarrow> bool" where
  "matches_here pat look prev_word s =
     (pat \<noteq> [] \<and> take (length pat) s = pat \<and>
      prev_word \<noteq> is_word (hd pat) \<and>
      is_word (last pat) \<noteq> next_is is_word (drop (length pat) s) \<and>
      (\<not> look \<or> drop (length pat) s = [] \<or> next_is is_space (drop (length pat) s)))"

function sub_token :: "string \<Rightarrow> string \<Rightarrow> bool \<Rightarrow> bool \<Rightarrow> string \<Rightarrow> string" where
  "sub_token pat rep look prev_word s =
     (case s of
        [] \<Rightarrow> []
      | c # cs \<Rightarrow>
          if matches_here pat look prev_word s
          then rep @ sub_token pat rep look (is_word (last pat)) (drop (length pat) s)
          else c # sub_token pat rep look (is_word c) cs)"
  by pat_completeness auto
termination
  by (relation "measure (\<lambda>(pat, rep, look, prev_word, s). length s)")
     (auto simp: matches_here_def)

text \<open>\<^verbatim>\<open>re.sub(r'\s+', ' ', n)\<close>, \<^verbatim>\<open>.strip()\<close> and \<^verbatim>\<open>.lower()\<close>.\<close>

function collapse_spaces :: "string \<Rightarrow> string" where
  "collapse_spaces [] = []"
| "collapse_spaces (c # cs) =
     (if is_space c then CHR '' '' # collapse_spaces (dropWhile is_space cs)
      else c # collapse_spaces cs)"
  by pat_completeness auto
termination
  by (relation "measure length") (auto simp: less_Suc_eq_le length_dropWhile_le)

fun rstrip :: "string \<Rightarrow> string" where
  "rstrip [] = []"
| "rstrip (c # cs) = (if is_space c \<and> rstrip cs = [] then [] else c # rstrip cs)"

definition strip :: "string \<Rightarrow> string" where
  "strip s = rstrip (dropWhile is_space s)"

definition lower :: "string \<Rightarrow> string" where
  "lower s = map lower_char s"

definition expand_directions :: "string \<Rightarrow> string" where
  "expand_directions n0 =
     (let n1 = sub_token ''NE'' ''North East'' False False n0;
          n2 = sub_token ''NW'' ''North West'' False False n1;
          n3 = sub_token ''SE'' ''South East'' False False n2;
          n4 = sub_token ''SW'' ''South West'' False False n3;
          n5 = sub_token ''N'' ''North'' True False n4;
          n6 = sub_token ''S'' ''South'' True False n5;
          n7 = sub_token ''E'' ''East'' True False n6
      in sub_token ''W'' ''West'' True False n7)"

definition normalize_constituency_name :: "string \<Rightarrow> string" where
  "normalize_constituency_name name =
     (if name = [] then []
      else lower (strip (collapse_spaces
             (expand_directions (replace_hyphens (sub_ampersand name))))))"

subsection \<open>Name synchronisation (\<^verbatim>\<open>sync_boundary_names\<close>)\<close>

text \<open>
  A result record, with the two fields this code reads. The look-up table of one boundary
  version is filled from its elections in turn, the first name given to an identifier
  standing.
\<close>

record constituency =
  constituencyId :: string
  constituencyName :: string

definition add_names :: "constituency list \<Rightarrow> (string \<rightharpoonup> string) \<Rightarrow> (string \<rightharpoonup> string)" where
  "add_names constituencies lookup =
     fold (\<lambda>c m. if constituencyId c \<in> dom m then m else m(constituencyId c \<mapsto> constituencyName c))
       constituencies lookup"

definition get_or_empty :: "string option \<Rightarrow> string" where
  "get_or_empty v = (case v of None \<Rightarrow> [] | Some s \<Rightarrow> s)"

definition sync_feature :: "(string \<rightharpoonup> string) \<Rightarrow> feature \<Rightarrow> feature option" where
  "sync_feature name_lookup feature =
     (case name_lookup (fid feature) of
        None \<Rightarrow> None
      | Some election_name \<Rightarrow>
          (let normalized = normalize_constituency_name election_name;
               current_name = get_or_empty (Name feature);
               current_normalized = get_or_empty (normalizedName feature)
           in if current_name \<noteq> election_name \<or> current_normalized \<noteq> normalized
              then Some (feature\<lparr>Name := Some election_name, normalizedName := Some normalized\<rparr>)
              else None))"

definition sync_boundary_names :: "(string \<rightharpoonup> string) \<Rightarrow> feature list \<Rightarrow> feature list \<times> bool \<times> nat" where
  "sync_boundary_names name_lookup features = for_each (sync_feature name_lookup) features False 0"

subsection \<open>Validation (\<^verbatim>\<open>validate\<close>)\<close>

text \<open>
  The body of the loop over election years, for one election and the boundary document of
  its version. The report of one pair is what the pass adds to
  \<^verbatim>\<open>total_mismatches\<close> and the two lists it prints (each the first ten identifiers
  in sorted order; a list is printed only when it is not empty).
\<close>

definition known_exceptions :: "(string \<times> string) set" where
  "known_exceptions =
     {(''1992'', ''EC_MILTON_KEYNES_NORTH_EAST''), (''1992'', ''EC_MILTON_KEYNES_SOUTH_WEST'')}"

record report =
  mismatches :: nat
  listed_missing_from_boundary :: "string list"
  listed_missing_from_election :: "string list"

definition election_ids :: "constituency list \<Rightarrow> string set" where
  "election_ids constituencies = set (map constituencyId constituencies)"

definition boundary_ids :: "feature list \<Rightarrow> string set" where
  "boundary_ids features = set (map fid (filter (\<lambda>f. fid f \<noteq> []) features))"

definition missing_from_boundary :: "string \<Rightarrow> constituency list \<Rightarrow> feature list \<Rightarrow> string set" where
  "missing_from_boundary year_str constituencies features =
     Set.filter (\<lambda>m. (year_str, m) \<notin> known_exceptions)
       (election_ids constituencies - boundary_ids features)"

definition missing_from_election :: "constituency list \<Rightarrow> feature list \<Rightarrow> string set" where
  "missing_from_election constituencies features =
     boundary_ids features - election_ids constituencies"

definition validate_pair :: "string \<Rightarrow> constituency list \<Rightarrow> feature list \<Rightarrow> report" where
  "validate_pair year_str constituencies features =
     (let mfb = missing_from_boundary year_str constituencies features;
          mfe = missing_from_election constituencies features
      in if mfb \<noteq> {} \<or> mfe \<noteq> {}
         then \<lparr>mismatches = card mfb + card mfe,
               listed_missing_from_boundary = take 10 (sorted_list_of_set mfb),
               listed_missing_from_election = take 10 (sorted_list_of_set mfe)\<rparr>
         else \<lparr>mismatches = 0, listed_missing_from_boundary = [],
               listed_missing_from_election = []\<rparr>)"

section \<open>The clipper (\<^verbatim>\<open>clip_to_coastline.py\<close>)\<close>

subsection \<open>Coordinate trees\<close>

text \<open>
  The clipper walks coordinates without looking at the geometry type, so here they are
  what JSON gives: a number or an array of such values. A geometry is the dictionary
  \<^verbatim>\<open>{'type': ..., 'coordinates': ...}\<close>. The two exceptions these functions can raise
  are \<^verbatim>\<open>IndexError\<close> (subscript \<open>0\<close> of an empty array) and \<^verbatim>\<open>TypeError\<close>
  (subscript, length or iteration of a number; \<^verbatim>\<open>round\<close> of an array).
\<close>

datatype json = Num real | Arr "json list"

datatype py_error = IndexError | TypeError

record geom_dict =
  gtype :: string
  coordinates :: json

text \<open>
  A list comprehension whose elements may raise: the first exception, in list order, is
  the outcome.
\<close>

fun collect :: "(py_error + 'a) list \<Rightarrow> py_error + 'a list" where
  "collect [] = Inr []"
| "collect (Inl e # rest) = Inl e"
| "collect (Inr v # rest) = (case collect rest of Inl e \<Rightarrow> Inl e | Inr vs \<Rightarrow> Inr (v # vs))"

text \<open>
  \<^verbatim>\<open>round_coords(coords, precision=3)\<close>. \<open>rnd\<close> stands for Python's built-in
  \<^verbatim>\<open>round(c, 3)\<close> on a number. The function reads \<^verbatim>\<open>coords[0]\<close> first; if that is
  a number it rounds every element (\<^verbatim>\<open>round\<close> of an array raises), otherwise it calls
  itself on every element.
\<close>

fun round_number :: "(real \<Rightarrow> real) \<Rightarrow> json \<Rightarrow> py_error + json" where
  "round_number rnd (Num x) = Inr (Num (rnd x))"
| "round_number rnd (Arr cs) = Inl TypeError"

fun round_coords :: "(real \<Rightarrow> real) \<Rightarrow> json \<Rightarrow> py_error + json" where
  "round_coords rnd (Num x) = Inl TypeError"
| "round_coords rnd (Arr []) = Inl IndexError"
| "round_coords rnd (Arr (Num x # cs)) =
     (case collect (map (round_number rnd) (Num x # cs)) of
        Inl e \<Rightarrow> Inl e | Inr vs \<Rightarrow> Inr (Arr vs))"
| "round_coords rnd (Arr (Arr a # cs)) =
     (case collect (map (round_coords rnd) (Arr a # cs)) of
        Inl e \<Rightarrow> Inl e | Inr vs \<Rightarrow> Inr (Arr vs))"

text \<open>
  \<^verbatim>\<open>count_coords(geometry_dict)\<close> of the clipper: \<^verbatim>\<open>total += len(ring)\<close> over the
  rings of a Polygon or of every polygon of a MultiPolygon, \<open>0\<close> for another type.
\<close>

fun ring_total :: "json list \<Rightarrow> nat \<Rightarrow> py_error + nat" where
  "ring_total [] tot = Inr tot"
| "ring_total (Arr points # rest) tot = ring_total rest (tot + length points)"
| "ring_total (Num x # rest) tot = Inl TypeError"

fun polygon_total :: "json list \<Rightarrow> nat \<Rightarrow> py_error + nat" where
  "polygon_total [] tot = Inr tot"
| "polygon_total (Arr rings # rest) tot =
     (case ring_total rings tot of Inl e \<Rightarrow> Inl e | Inr tot' \<Rightarrow> polygon_total rest tot')"
| "polygon_total (Num x # rest) tot = Inl TypeError"

definition count_coords_clip :: "geom_dict \<Rightarrow> py_error + nat" where
  "count_coords_clip geometry_dict =
     (if gtype geometry_dict = ''Polygon'' then
        (case coordinates geometry_dict of
           Arr rings \<Rightarrow> ring_total rings 0 | Num x \<Rightarrow> Inl TypeError)
      else if gtype geometry_dict = ''MultiPolygon'' then
        (case coordinates geometry_dict of
           Arr polygons \<Rightarrow> polygon_total polygons 0 | Num x \<Rightarrow> Inl TypeError)
      else Inr 0)"

subsection \<open>The geometry library\<close>

text \<open>
  The geometry library is not part of the repository. A geometry value of the library is
  modelled by what the clipper reads from it: \<^verbatim>\<open>is_empty\<close>, \<^verbatim>\<open>geom_type\<close>,
  \<^verbatim>\<open>area\<close>, its parts \<^verbatim>\<open>geoms\<close>, and the dictionary \<^verbatim>\<open>mapping(geom)\<close> gives
  for it. The library's operations are parameters: \<^verbatim>\<open>shape\<close> and
  \<^verbatim>\<open>intersection\<close> may raise (the exception's message is the \<open>Inl\<close> value),
  \<^verbatim>\<open>is_valid\<close>, \<^verbatim>\<open>make_valid\<close> and the \<^verbatim>\<open>MultiPolygon\<close> constructor are
  total, and \<open>round3\<close> is \<^verbatim>\<open>round(c, 3)\<close>.
\<close>

datatype sgeom =
  SGeom (is_empty: bool) (geom_type: string) (area: real) (geoms: "sgeom list") (mapping: geom_dict)

record engine =
  shape :: "geom_dict \<Rightarrow> string + sgeom"
  is_valid :: "sgeom \<Rightarrow> bool"
  make_valid :: "sgeom \<Rightarrow> sgeom"
  intersection :: "sgeom \<Rightarrow> sgeom \<Rightarrow> string + sgeom"
  multi_polygon :: "sgeom list \<Rightarrow> sgeom"
  round3 :: "real \<Rightarrow> real"

definition MIN_AREA :: real where
  "MIN_AREA = 1 / 1000000"

fun extract_polygons :: "sgeom \<Rightarrow> sgeom list" where
  "extract_polygons (SGeom emp ty a parts m) =
     (if emp then []
      else if ty = ''Polygon'' then (if a \<ge> MIN_AREA then [SGeom emp ty a parts m] else [])
      else if ty = ''MultiPolygon'' then filter (\<lambda>poly. area poly \<ge> MIN_AREA) parts
      else if ty = ''GeometryCollection'' then concat (map extract_polygons parts)
      else [])"

subsection \<open>\<^verbatim>\<open>clip_boundary_file\<close>\<close>

text \<open>
  A feature as the clipper sees it: the \<^verbatim>\<open>id\<close> property, read with
  \<^verbatim>\<open>.get('id', '?')\<close>, and the geometry dictionary.
\<close>

record raw_feature =
  raw_id :: "string option"
  raw_geometry :: geom_dict

text \<open>
  From \<^verbatim>\<open>shape(geom_dict)\<close> to \<^verbatim>\<open>round_coords\<close>: the outcome is an exception that
  leaves the function (only \<^verbatim>\<open>round_coords\<close> can raise one that is not caught), a
  \<^verbatim>\<open>continue\<close> with the lines it printed, or the rounded \<^verbatim>\<open>result_dict\<close>.
\<close>

definition clip_geometry :: "engine \<Rightarrow> sgeom \<Rightarrow> string \<Rightarrow> geom_dict \<Rightarrow> py_error + (string list + geom_dict)" where
  "clip_geometry E land_mask fid_text geom_dict =
     (case shape E geom_dict of
        Inl e \<Rightarrow> Inr (Inl [])
      | Inr parsed \<Rightarrow>
          (let constituency_geom = (if \<not> is_valid E parsed then make_valid E parsed else parsed) in
           case intersection E constituency_geom land_mask of
             Inl e \<Rightarrow> Inr (Inl [''    WARNING: intersection failed for '' @ fid_text @ '': '' @ e])
           | Inr clipped \<Rightarrow>
               if is_empty clipped
               then Inr (Inl [''    WARNING: empty intersection for '' @ fid_text])
               else
                 (let polygons = extract_polygons clipped in
                  if polygons = []
                  then Inr (Inl [''    WARNING: no polygon parts after clipping '' @ fid_text])
                  else
                    (let result_geom = (if length polygons = 1 then polygons ! 0
                                        else multi_polygon E polygons);
                         result_dict = mapping result_geom
                     in case round_coords (round3 E) (coordinates result_dict) of
                          Inl err \<Rightarrow> Inl err
                        | Inr rounded \<Rightarrow> Inr (Inr (result_dict\<lparr>coordinates := rounded\<rparr>))))))"

text \<open>
  The body of the loop over the features. It returns the feature as the body leaves it,
  whether \<^verbatim>\<open>modified_count\<close> was incremented, what was added to
  \<^verbatim>\<open>coords_before_total\<close> and to \<^verbatim>\<open>coords_after_total\<close>, and the lines printed.
\<close>

definition clip_feature :: "engine \<Rightarrow> sgeom \<Rightarrow> raw_feature \<Rightarrow> py_error + (raw_feature \<times> bool \<times> nat \<times> nat \<times> string list)" where
  "clip_feature E land_mask feature =
     (let geom_dict = raw_geometry feature;
          fid_text = (case raw_id feature of None \<Rightarrow> ''?'' | Some i \<Rightarrow> i)
      in case count_coords_clip geom_dict of
           Inl err \<Rightarrow> Inl err
         | Inr coords_before \<Rightarrow>
             (case clip_geometry E land_mask fid_text geom_dict of
                Inl err \<Rightarrow> Inl err
              | Inr (Inl printed) \<Rightarrow> Inr (feature, False, coords_before, coords_before, printed)
              | Inr (Inr result_dict) \<Rightarrow>
                  (case count_coords_clip result_dict of
                     Inl err \<Rightarrow> Inl err
                   | Inr coords_after \<Rightarrow>
                       if gtype result_dict \<noteq> gtype geom_dict \<or> coords_after \<noteq> coords_before
                       then Inr (feature\<lparr>raw_geometry := result_dict\<rparr>, True,
                                 coords_before, coords_after, [])
                       else Inr (feature, False, coords_before, coords_after, []))))"

record totals =
  modified_count :: nat
  coords_before_total :: nat
  coords_after_total :: nat
  printed_lines :: "string list"

fun clip_features :: "engine \<Rightarrow> sgeom \<Rightarrow> raw_feature list \<Rightarrow> totals \<Rightarrow> py_error + (raw_feature list \<times> totals)" where
  "clip_features E land_mask [] t = Inr ([], t)"
| "clip_features E land_mask (feature # rest) t =
     (case clip_feature E land_mask feature of
        Inl err \<Rightarrow> Inl err
      | Inr (feature', modified, coords_before, coords_after, printed) \<Rightarrow>
          (case clip_features E land_mask rest
                  (t\<lparr>modified_count := modified_count t + (if modified then 1 else 0),
                     coords_before_total := coords_before_total t + coords_before,
                     coords_after_total := coords_after_total t + coords_after,
                     printed_lines := printed_lines t @ printed\<rparr>) of
             Inl err \<Rightarrow> Inl err
           | Inr (rest', t') \<Rightarrow> Inr (feature' # rest', t')))"

definition clip_boundary_file :: "engine \<Rightarrow> sgeom \<Rightarrow> raw_feature list \<Rightarrow> py_error + (raw_feature list \<times> totals)" where
  "clip_boundary_file E land_mask features =
     clip_features E land_mask features
       \<lparr>modified_count = 0, coords_before_total = 0, coords_after_total = 0, printed_lines = []\<rparr>"

section \<open>Notions the properties are stated with\<close>

subsection \<open>Ring orientation\<close>










subsection \<open>Name normalization\<close>

text \<open>
  The two halves of \<^verbatim>\<open>normalize_constituency_name\<close>, and the shape of a string whose
  white space is collapsed: every white-space character is a blank and no two are adjacent.
\<close>

definition head_pass :: "string \<Rightarrow> string" where
  "head_pass s = expand_directions (replace_hyphens (sub_ampersand s))"

definition tail_pass :: "string \<Rightarrow> string" where
  "tail_pass s = lower (strip (collapse_spaces s))"

fun tidy :: "string \<Rightarrow> bool" where
  "tidy [] = True"
| "tidy (c # cs) =
     ((is_space c \<longrightarrow> c = CHR '' '' \<and> (cs \<noteq> [] \<longrightarrow> \<not> is_space (hd cs))) \<and> tidy cs)"

subsection \<open>Reconciliation\<close>

text \<open>
  What a repair loop does to one feature; the first maximal element of a list under a key;
  the identifiers of a list not seen before, in order of first occurrence; and the feature
  deduplication keeps for an identifier.
\<close>

definition touched :: "('a \<Rightarrow> 'a option) \<Rightarrow> 'a \<Rightarrow> 'a" where
  "touched step x = (case step x of None \<Rightarrow> x | Some x' \<Rightarrow> x')"

definition first_max_in :: "('a \<Rightarrow> nat) \<Rightarrow> 'a list \<Rightarrow> 'a \<Rightarrow> bool" where
  "first_max_in key xs best =
     (\<exists>k < length xs. xs ! k = best \<and>
        (\<forall>j < length xs. key (xs ! j) \<le> key best) \<and>
        (\<forall>j < k. key (xs ! j) < key best))"

fun fresh :: "string set \<Rightarrow> string list \<Rightarrow> string list" where
  "fresh seen [] = []"
| "fresh seen (i # rest) = (if i \<in> seen then fresh seen rest else i # fresh (insert i seen) rest)"

definition pick :: "(string \<Rightarrow> feature list) \<Rightarrow> string \<Rightarrow> feature" where
  "pick idf i = (if length (idf i) > 1 then py_max count_coords (idf i) else idf i ! 0)"

subsection \<open>Coordinate trees\<close>

text \<open>
  A coordinate tree is homogeneous when the elements of every array are all numbers or all
  arrays, as the positions, rings and polygons of a GeoJSON geometry are. \<open>has_empty\<close>
  tells whether some array of the tree, at any depth, is empty; \<open>map_json\<close> applies a
  function to every number and keeps the shape.
\<close>

fun is_number :: "json \<Rightarrow> bool" where
  "is_number (Num x) = True"
| "is_number (Arr cs) = False"

fun homogeneous :: "json \<Rightarrow> bool" where
  "homogeneous (Num x) = True"
| "homogeneous (Arr cs) =
     ((list_all is_number cs \<or> list_all (\<lambda>c. \<not> is_number c) cs) \<and> list_all homogeneous cs)"

fun has_empty :: "json \<Rightarrow> bool" where
  "has_empty (Num x) = False"
| "has_empty (Arr cs) = (cs = [] \<or> list_ex has_empty cs)"

fun map_json :: "(real \<Rightarrow> real) \<Rightarrow> json \<Rightarrow> json" where
  "map_json f (Num x) = Num (f x)"
| "map_json f (Arr cs) = Arr (map (map_json f) cs)"

subsection \<open>Example documents\<close>

text \<open>Features and result records with only the fields an example needs.\<close>

definition feature_of :: "string \<Rightarrow> geometry \<Rightarrow> feature" where
  "feature_of i g = \<lparr>fid = i, Name = None, normalizedName = None, geometry = g\<rparr>"

definition constituency_of :: "string \<Rightarrow> constituency" where
  "constituency_of i = \<lparr>constituencyId = i, constituencyName = i\<rparr>"

text \<open>
  A geometry library for the examples: \<^verbatim>\<open>shape\<close> accepts a dictionary when
  \<open>parses\<close> says so, every geometry is valid, and the intersection with the land mask
  is the land mask itself.
\<close>

definition example_engine :: "(geom_dict \<Rightarrow> bool) \<Rightarrow> engine" where
  "example_engine parses =
     \<lparr>shape = (\<lambda>g. if parses g then Inr (SGeom False (gtype g) 1 [] g)
                     else Inl ''A LinearRing requires at least 4 coordinates.''),
      is_valid = (\<lambda>g. True),
      make_valid = (\<lambda>g. g),
      intersection = (\<lambda>a b. Inr b),
      multi_polygon = (\<lambda>ps. SGeom False ''MultiPolygon'' (sum_list (map area ps)) ps
                          \<lparr>gtype = ''MultiPolygon'',
                           coordinates = Arr (map (\<lambda>p. coordinates (mapping p)) ps)\<rparr>),
      round3 = (\<lambda>x. real_of_int (round (x * 1000)) / 1000)\<rparr>"

section \<open>Ring orientation: proofs\<close>



























section \<open>Name normalization: proofs\<close>

lemma of_char_lower_char:
  "(of_char (lower_char c) :: nat) =
     (let n = of_char c in
      if (65 \<le> n \<and> n \<le> 90) \<or> (192 \<le> n \<and> n \<le> 214) \<or> (216 \<le> n \<and> n \<le> 222)
      then n + 32 else n)"
  by (auto simp: lower_char_def Let_def)

lemma char_eq_code: "c = d \<longleftrightarrow> (of_char c :: nat) = of_char d"
  by simp

lemma lower_char_idem: "lower_char (lower_char c) = lower_char c"
  by (auto simp: char_eq_code [of "lower_char (lower_char c)"] of_char_lower_char Let_def)

lemma is_space_lower_char: "is_space (lower_char c) = is_space c"
  by (auto simp: is_space_def of_char_lower_char Let_def)

lemma lower_char_eq_space: "lower_char c = CHR '' '' \<longleftrightarrow> c = CHR '' ''"
  by (auto simp: char_eq_code [of _ "CHR '' ''"] of_char_lower_char Let_def)

lemma lower_char_eq_amp: "lower_char c = CHR ''&'' \<longleftrightarrow> c = CHR ''&''"
  by (auto simp: char_eq_code [of _ "CHR ''&''"] of_char_lower_char Let_def)

lemma lower_char_eq_hyphen: "lower_char c = CHR ''-'' \<longleftrightarrow> c = CHR ''-''"
  by (auto simp: char_eq_code [of _ "CHR ''-''"] of_char_lower_char Let_def)

lemma lower_char_not_upper:
  "lower_char c \<noteq> CHR ''N''" "lower_char c \<noteq> CHR ''S''"
  "lower_char c \<noteq> CHR ''E''" "lower_char c \<noteq> CHR ''W''"
  by (auto simp: char_eq_code [of "lower_char c"] of_char_lower_char Let_def)

lemma not_space_literals: "\<not> is_space CHR ''&''" "\<not> is_space CHR ''a''"
  by (simp_all add: is_space_def)

declare sub_ampersand.simps [simp del]

declare sub_token.simps [simp del]

lemma set_sub_ampersand: "set (sub_ampersand s) \<subseteq> (set s - {CHR ''&''}) \<union> set '' and ''"
proof (induction s rule: sub_ampersand.induct)
  case (1 s)
  show ?case
  proof (cases "dropWhile is_space s")
    case Nil
    then have "\<forall>c\<in>set s. is_space c" by (simp add: dropWhile_eq_Nil_conv)
    then have "CHR ''&'' \<notin> set s" using not_space_literals(1) by blast
    moreover have "sub_ampersand s = s"
      by (subst sub_ampersand.simps) (simp only: Nil list.case)
    ultimately show ?thesis by auto
  next
    case (Cons c rest)
    have s: "s = takeWhile is_space s @ c # rest"
      using Cons by (metis takeWhile_dropWhile_id)
    have tw: "set (takeWhile is_space s) \<subseteq> set s - {CHR ''&''}"
      using not_space_literals(1) by (auto dest: set_takeWhileD)
    have c_in: "c \<in> set s" and rest_in: "set rest \<subseteq> set s"
      using s by (metis in_set_conv_decomp, metis Un_upper2 set_append set_subset_Cons subset_trans)
    show ?thesis
    proof (cases "c = CHR ''&''")
      case True
      have "set (sub_ampersand (dropWhile is_space rest))
              \<subseteq> (set (dropWhile is_space rest) - {CHR ''&''}) \<union> set '' and ''"
        using 1(1) [OF Cons True] .
      moreover have "set (dropWhile is_space rest) \<subseteq> set s"
        using rest_in set_dropWhileD by fastforce
      ultimately have "set (sub_ampersand (dropWhile is_space rest)) \<subseteq> (set s - {CHR ''&''}) \<union> set '' and ''"
        by blast
      then show ?thesis using Cons True by (subst sub_ampersand.simps) auto
    next
      case False
      have "set (sub_ampersand rest) \<subseteq> (set rest - {CHR ''&''}) \<union> set '' and ''"
        using 1(2) [OF Cons False] .
      then have "set (sub_ampersand rest) \<subseteq> (set s - {CHR ''&''}) \<union> set '' and ''"
        using rest_in by blast
      then show ?thesis using Cons False tw c_in
        by (subst sub_ampersand.simps) auto
    qed
  qed
qed

lemma sub_ampersand_id: "CHR ''&'' \<notin> set s \<Longrightarrow> sub_ampersand s = s"
proof (induction s rule: sub_ampersand.induct)
  case (1 s)
  show ?case
  proof (cases "dropWhile is_space s")
    case Nil
    show ?thesis by (subst sub_ampersand.simps) (simp only: Nil list.case)
  next
    case (Cons c rest)
    have s: "s = takeWhile is_space s @ c # rest"
      using Cons by (metis takeWhile_dropWhile_id)
    then have "c \<in> set s" and rest_in: "set rest \<subseteq> set s"
      by (metis in_set_conv_decomp, metis Un_upper2 set_append set_subset_Cons subset_trans)
    then have ne: "c \<noteq> CHR ''&''" and "CHR ''&'' \<notin> set rest" using 1(3) by auto
    then have "sub_ampersand rest = rest" using 1(2) [OF Cons ne] by simp
    then show ?thesis using Cons ne s by (subst sub_ampersand.simps) simp
  qed
qed

lemma set_sub_token: "set (sub_token pat rep look pw s) \<subseteq> set s \<union> set rep"
proof (induction pat rep look pw s rule: sub_token.induct)
  case (1 pat rep look pw s)
  show ?case
  proof (cases s)
    case Nil
    then show ?thesis by (subst sub_token.simps) simp
  next
    case (Cons c cs)
    show ?thesis
    proof (cases "matches_here pat look pw s")
      case True
      have "set (sub_token pat rep look (is_word (last pat)) (drop (length pat) s))
              \<subseteq> set (drop (length pat) s) \<union> set rep"
        using 1(1) [OF Cons True] .
      moreover have "set (drop (length pat) s) \<subseteq> set s" by (rule set_drop_subset)
      ultimately show ?thesis using Cons True by (subst sub_token.simps) auto
    next
      case False
      have "set (sub_token pat rep look (is_word c) cs) \<subseteq> set cs \<union> set rep"
        using 1(2) [OF Cons False] .
      then show ?thesis using Cons False by (subst sub_token.simps) auto
    qed
  qed
qed

lemma matches_here_hd: "matches_here pat look pw s \<Longrightarrow> hd pat \<in> set s"
  unfolding matches_here_def
  by (metis hd_in_set in_set_takeD)

lemma sub_token_id: "hd pat \<notin> set s \<Longrightarrow> sub_token pat rep look pw s = s"
proof (induction s arbitrary: pw)
  case Nil
  then show ?case by (subst sub_token.simps) simp
next
  case (Cons c cs)
  have "\<not> matches_here pat look pw (c # cs)"
    using Cons.prems matches_here_hd by blast
  moreover have "sub_token pat rep look (is_word c) cs = cs"
    using Cons by simp
  ultimately show ?case by (subst sub_token.simps) simp
qed

lemma is_space_blank: "is_space CHR '' ''"
  by (simp add: is_space_def)

lemma hd_collapse_spaces:
  "s \<noteq> [] \<Longrightarrow> \<not> is_space (hd s) \<Longrightarrow> collapse_spaces s \<noteq> [] \<and> hd (collapse_spaces s) = hd s"
  by (cases s) simp_all

lemma hd_dropWhile_not: "dropWhile P s \<noteq> [] \<Longrightarrow> \<not> P (hd (dropWhile P s))"
  by (rule hd_dropWhile)

lemma collapse_spaces_Nil: "collapse_spaces s = [] \<longleftrightarrow> s = []"
  by (cases s) simp_all

lemma tidy_collapse_spaces: "tidy (collapse_spaces s)"
proof (induction s rule: collapse_spaces.induct)
  case 1
  show ?case by simp
next
  case (2 c cs)
  show ?case
  proof (cases "is_space c")
    case True
    let ?r = "dropWhile is_space cs"
    have "collapse_spaces ?r \<noteq> [] \<longrightarrow> \<not> is_space (hd (collapse_spaces ?r))"
      using hd_collapse_spaces [of ?r] hd_dropWhile_not [of is_space cs]
      by (auto simp: collapse_spaces_Nil)
    then show ?thesis using True 2(1) by simp
  next
    case False
    then show ?thesis using 2(2) by simp
  qed
qed

lemma collapse_spaces_tidy: "tidy s \<Longrightarrow> collapse_spaces s = s"
proof (induction s rule: collapse_spaces.induct)
  case 1
  show ?case by simp
next
  case (2 c cs)
  show ?case
  proof (cases "is_space c")
    case True
    then have c: "c = CHR '' ''" and hd: "cs \<noteq> [] \<longrightarrow> \<not> is_space (hd cs)" and t: "tidy cs"
      using 2(3) by auto
    have "dropWhile is_space cs = cs" using hd by (cases cs) auto
    then show ?thesis using True c t 2(1) by simp
  next
    case False
    then show ?thesis using 2 by simp
  qed
qed

lemma tidy_dropWhile: "tidy s \<Longrightarrow> tidy (dropWhile P s)"
  by (induction s) auto

lemma rstrip_hd: "rstrip s \<noteq> [] \<Longrightarrow> s \<noteq> [] \<and> hd (rstrip s) = hd s"
  by (cases s) (auto split: if_splits)

lemma tidy_rstrip: "tidy s \<Longrightarrow> tidy (rstrip s)"
proof (induction s)
  case Nil
  show ?case by simp
next
  case (Cons c cs)
  then have "tidy (rstrip cs)" by simp
  then show ?case using Cons.prems rstrip_hd [of cs] by auto
qed

lemma tidy_strip: "tidy s \<Longrightarrow> tidy (strip s)"
  by (simp add: strip_def tidy_dropWhile tidy_rstrip)

lemma tidy_lower: "tidy s \<Longrightarrow> tidy (lower s)"
  unfolding lower_def
  by (induction s) (auto simp: is_space_lower_char lower_char_eq_space hd_map)

lemma rstrip_idem: "rstrip (rstrip s) = rstrip s"
  by (induction s) auto

lemma dropWhile_rstrip:
  "s = [] \<or> \<not> is_space (hd s) \<Longrightarrow> dropWhile is_space (rstrip s) = rstrip s"
  by (cases s) (auto split: if_splits)

lemma strip_idem: "strip (strip s) = strip s"
proof -
  let ?t = "dropWhile is_space s"
  have "?t = [] \<or> \<not> is_space (hd ?t)" using hd_dropWhile_not by blast
  then have "dropWhile is_space (rstrip ?t) = rstrip ?t" by (rule dropWhile_rstrip)
  then show ?thesis by (simp add: strip_def rstrip_idem)
qed

lemma rstrip_map_lower: "rstrip (map lower_char s) = map lower_char (rstrip s)"
  by (induction s) (auto simp: is_space_lower_char)

lemma strip_lower: "strip (lower s) = lower (strip s)"
proof -
  have "is_space \<circ> lower_char = is_space" by (auto simp: is_space_lower_char)
  then show ?thesis by (simp add: strip_def lower_def dropWhile_map rstrip_map_lower)
qed

lemma lower_idem: "lower (lower s) = lower s"
  by (simp add: lower_def lower_char_idem)

lemma set_collapse_spaces: "set (collapse_spaces s) \<subseteq> insert CHR '' '' (set s)"
proof (induction s rule: collapse_spaces.induct)
  case 1
  show ?case by simp
next
  case (2 c cs)
  have "set (dropWhile is_space cs) \<subseteq> set cs" by (auto dest: set_dropWhileD)
  then show ?case using 2 by (cases "is_space c") auto
qed

lemma set_rstrip: "set (rstrip s) \<subseteq> set s"
  by (induction s) auto

lemma set_strip: "set (strip s) \<subseteq> set s"
  unfolding strip_def using set_rstrip [of "dropWhile is_space s"]
  by (auto dest: set_dropWhileD)

lemma sub_ampersand_Nil: "sub_ampersand [] = []"
  by (subst sub_ampersand.simps) simp

lemma sub_token_Nil: "sub_token pat rep look pw [] = []"
  by (subst sub_token.simps) simp

lemma normalize_eq: "normalize_constituency_name s = tail_pass (head_pass s)"
proof (cases "s = []")
  case True
  have "head_pass [] = []"
    by (simp add: head_pass_def replace_hyphens_def expand_directions_def
          sub_ampersand_Nil sub_token_Nil)
  then show ?thesis
    using True by (simp add: normalize_constituency_name_def tail_pass_def lower_def strip_def)
next
  case False
  then show ?thesis by (simp add: normalize_constituency_name_def tail_pass_def head_pass_def)
qed

lemma tail_pass_idem: "tail_pass (tail_pass s) = tail_pass s"
proof -
  let ?u = "strip (collapse_spaces s)"
  have "tidy (lower ?u)" by (simp add: tidy_lower tidy_strip tidy_collapse_spaces)
  then have "collapse_spaces (lower ?u) = lower ?u" by (rule collapse_spaces_tidy)
  then show ?thesis by (simp add: tail_pass_def strip_lower strip_idem lower_idem)
qed

lemma sub_token_notin: "c \<notin> set s \<Longrightarrow> c \<notin> set rep \<Longrightarrow> c \<notin> set (sub_token pat rep look pw s)"
  using set_sub_token [of pat rep look pw s] by blast

lemma head_pass_clean: "CHR ''&'' \<notin> set (head_pass s) \<and> CHR ''-'' \<notin> set (head_pass s)"
proof -
  have a: "CHR ''&'' \<notin> set (sub_ampersand s)"
    using set_sub_ampersand [of s] by auto
  have b: "CHR ''&'' \<notin> set (replace_hyphens (sub_ampersand s))"
    using a by (auto simp: replace_hyphens_def)
  have c: "CHR ''-'' \<notin> set (replace_hyphens (sub_ampersand s))"
    by (auto simp: replace_hyphens_def)
  show ?thesis
    unfolding head_pass_def expand_directions_def Let_def
    by (intro conjI sub_token_notin b c) simp_all
qed

lemma set_tail_pass: "set (tail_pass s) \<subseteq> lower_char ` insert CHR '' '' (set s)"
proof -
  have "set (strip (collapse_spaces s)) \<subseteq> insert CHR '' '' (set s)"
    using set_strip [of "collapse_spaces s"] set_collapse_spaces [of s] by blast
  then show ?thesis by (auto simp: tail_pass_def lower_def)
qed

lemma tail_pass_keeps_out:
  assumes "c \<notin> set s" and "\<And>d. lower_char d = c \<Longrightarrow> d = c" and "c \<noteq> CHR '' ''"
  shows "c \<notin> set (tail_pass s)"
proof
  assume "c \<in> set (tail_pass s)"
  then obtain d where "c = lower_char d" and d: "d = CHR '' '' \<or> d \<in> set s"
    using set_tail_pass [of s] by auto
  then have "d = c" using assms(2) by simp
  then show False using d assms(1,3) by auto
qed

lemma tail_pass_no_upper:
  assumes "\<And>d. lower_char d \<noteq> c"
  shows "c \<notin> set (tail_pass s)"
  using set_tail_pass [of s] assms by auto

lemma head_pass_id:
  assumes "CHR ''&'' \<notin> set s" "CHR ''-'' \<notin> set s"
    "CHR ''N'' \<notin> set s" "CHR ''S'' \<notin> set s" "CHR ''E'' \<notin> set s" "CHR ''W'' \<notin> set s"
  shows "head_pass s = s"
proof -
  have "sub_ampersand s = s" using assms(1) by (rule sub_ampersand_id)
  moreover have "replace_hyphens s = s"
    unfolding replace_hyphens_def using assms(2) by (intro map_idI) auto
  ultimately show ?thesis
    using assms(3-6) by (simp add: head_pass_def expand_directions_def sub_token_id)
qed

lemma normalize_idem: "normalize_constituency_name (normalize_constituency_name x) = normalize_constituency_name x"
proof -
  let ?z = "head_pass x"
  let ?y = "tail_pass ?z"
  have clean: "CHR ''&'' \<notin> set ?z" "CHR ''-'' \<notin> set ?z" using head_pass_clean by auto
  have "CHR ''&'' \<notin> set ?y"
    using clean(1) by (rule tail_pass_keeps_out) (simp_all add: lower_char_eq_amp)
  moreover have "CHR ''-'' \<notin> set ?y"
    using clean(2) by (rule tail_pass_keeps_out) (simp_all add: lower_char_eq_hyphen)
  moreover have "CHR ''N'' \<notin> set ?y" "CHR ''S'' \<notin> set ?y" "CHR ''E'' \<notin> set ?y" "CHR ''W'' \<notin> set ?y"
    by (rule tail_pass_no_upper, simp add: lower_char_not_upper)+
  ultimately have "head_pass ?y = ?y" by (rule head_pass_id)
  then show ?thesis by (simp add: normalize_eq tail_pass_idem)
qed

text \<open>
  C8. Canonical name normalization is idempotent: for every string \<open>x\<close>,
  \<^verbatim>\<open>normalize(normalize(x)) == normalize(x)\<close>; and \<^verbatim>\<open>"Ayr & Carrick"\<close> and
  \<^verbatim>\<open>"ayr and carrick"\<close> normalize to the same string.
\<close>

theorem normalize_constituency_name_idempotent:
  "normalize_constituency_name (normalize_constituency_name x) = normalize_constituency_name x \<and>
   normalize_constituency_name ''Ayr & Carrick'' = normalize_constituency_name ''ayr and carrick''"
proof
  show "normalize_constituency_name (normalize_constituency_name x) = normalize_constituency_name x"
    by (rule normalize_idem)
  show "normalize_constituency_name ''Ayr & Carrick'' = normalize_constituency_name ''ayr and carrick''"
    by code_simp
qed

theorem normalize_constituency_name_idempotent_witness:
  "normalize_constituency_name ''Inverness E, Nairn  &Lochaber N'' = ''inverness e, nairn and lochaber north'' \<and>
   normalize_constituency_name ''inverness e, nairn and lochaber north'' = ''inverness e, nairn and lochaber north''"
proof -
  have run: "normalize_constituency_name ''Inverness E, Nairn  &Lochaber N'' = ''inverness e, nairn and lochaber north''"
    by code_simp
  show ?thesis
    using normalize_constituency_name_idempotent [of "''Inverness E, Nairn  &Lochaber N''"]
    unfolding run by simp
qed

section \<open>Reconciliation: proofs\<close>

lemma for_each_eq:
  "for_each step xs modified n =
     (map (touched step) xs,
      modified \<or> (\<exists>x \<in> set xs. step x \<noteq> None),
      n + length (filter (\<lambda>x. step x \<noteq> None) xs))"
  by (induction xs arbitrary: modified n) (auto simp: touched_def split: option.splits)

lemma fold_id_features:
  "fold (\<lambda>feature d. d(fid feature := d (fid feature) @ [feature])) fs d0 =
     (\<lambda>i. d0 i @ filter (\<lambda>f. fid f = i) fs)"
  by (induction fs arbitrary: d0) (auto simp: fun_eq_iff)

lemma id_features_eq: "id_features fs i = filter (\<lambda>f. fid f = i) fs"
  by (simp add: id_features_def fold_id_features)

text \<open>The element \<^verbatim>\<open>max\<close> returns splits the list: strictly smaller keys before it, none larger after it.\<close>

lemma py_max_fold_split:
  "\<exists>pre post. b # xs = pre @ fold (keep_larger key) xs b # post \<and>
     (\<forall>y \<in> set pre. key y < key (fold (keep_larger key) xs b)) \<and>
     (\<forall>y \<in> set post. key y \<le> key (fold (keep_larger key) xs b))"
  (is "\<exists>pre post. ?P xs pre post")
proof (induction xs rule: rev_induct)
  case Nil
  have "?P [] [] []" by simp
  then show ?case by blast
next
  case (snoc y xs)
  let ?r = "fold (keep_larger key) xs b"
  from snoc obtain pre post where
    split: "b # xs = pre @ ?r # post" and
    pre: "\<forall>z \<in> set pre. key z < key ?r" and post: "\<forall>z \<in> set post. key z \<le> key ?r"
    by blast
  have sets: "set (b # xs) = set pre \<union> {?r} \<union> set post"
    using arg_cong [OF split, of set] by simp
  show ?case
  proof (cases "key y > key ?r")
    case True
    have "keep_larger key y ?r = y" using True by (simp add: keep_larger_def)
    then have new: "fold (keep_larger key) (xs @ [y]) b = y" by simp
    have "\<forall>z \<in> set (b # xs). key z < key y"
      unfolding sets using pre post True by auto
    then have "?P (xs @ [y]) (b # xs) []" unfolding new by simp
    then show ?thesis by blast
  next
    case False
    have "keep_larger key y ?r = ?r" using False by (simp add: keep_larger_def)
    then have new: "fold (keep_larger key) (xs @ [y]) b = ?r" by simp
    have "?P (xs @ [y]) pre (post @ [y])"
      unfolding new using False pre post split by simp
    then show ?thesis by blast
  qed
qed

lemma first_max_in_split:
  assumes "xs = pre @ r # post" "\<forall>y \<in> set pre. key y < key r" "\<forall>y \<in> set post. key y \<le> key r"
  shows "first_max_in key xs r"
proof -
  have "\<forall>y \<in> set xs. key y \<le> key r"
    using assms by (auto simp: less_imp_le)
  then have "\<forall>j < length xs. key (xs ! j) \<le> key r" by simp
  moreover have "\<forall>j < length pre. key (xs ! j) < key r"
    using assms by (simp add: nth_append)
  moreover have "length pre < length xs" "xs ! length pre = r"
    using assms(1) by simp_all
  ultimately show ?thesis unfolding first_max_in_def by blast
qed

lemma py_max_first_max: "xs \<noteq> [] \<Longrightarrow> first_max_in key xs (py_max key xs)"
proof (cases xs)
  case Nil
  assume "xs \<noteq> []" with Nil show ?thesis by simp
next
  case (Cons b rest)
  obtain pre post where
    "b # rest = pre @ fold (keep_larger key) rest b # post"
    "\<forall>y \<in> set pre. key y < key (fold (keep_larger key) rest b)"
    "\<forall>y \<in> set post. key y \<le> key (fold (keep_larger key) rest b)"
    using py_max_fold_split [of b rest key] by blast
  then have "first_max_in key (b # rest) (fold (keep_larger key) rest b)"
    by (rule first_max_in_split)
  then show ?thesis by (simp add: Cons)
qed

lemma first_max_in_mem: "first_max_in key xs r \<Longrightarrow> r \<in> set xs"
  by (auto simp: first_max_in_def)

lemma fresh_set: "set (fresh seen is) = set is - seen"
  by (induction "is" arbitrary: seen) auto

lemma fresh_distinct: "distinct (fresh seen is)"
  by (induction "is" arbitrary: seen) (auto simp: fresh_set)

lemma fold_dedup_step:
  "fold (dedup_step idf) fs (dupe_count, deduped, seen) =
     (dupe_count + sum_list (map (\<lambda>i. length (idf i) - 1) (fresh seen (map fid fs))),
      deduped @ map (pick idf) (fresh seen (map fid fs)),
      seen \<union> set (map fid fs))"
  by (induction fs arbitrary: dupe_count deduped seen)
     (auto simp: dedup_step_def pick_def Let_def)

lemma dedup_eq:
  "dedup fs =
     (sum_list (map (\<lambda>i. length (id_features fs i) - 1) (fresh {} (map fid fs))),
      map (pick (id_features fs)) (fresh {} (map fid fs)),
      set (map fid fs))"
  by (simp add: dedup_def fold_dedup_step)

lemma pick_first_max:
  assumes "idf i \<noteq> []"
  shows "first_max_in count_coords (idf i) (pick idf i)"
proof (cases "length (idf i) > 1")
  case True
  then show ?thesis using assms by (simp add: pick_def py_max_first_max)
next
  case False
  then obtain x where "idf i = [x]" using assms by (cases "idf i") auto
  then show ?thesis using False by (simp add: pick_def first_max_in_def)
qed

lemma fid_pick:
  assumes "i \<in> fid ` set fs"
  shows "fid (pick (id_features fs) i) = i"
proof -
  obtain f where "f \<in> set fs" "fid f = i" using assms by auto
  then have "f \<in> set (id_features fs i)" by (simp add: id_features_eq)
  then have ne: "id_features fs i \<noteq> []" by auto
  have "first_max_in count_coords (id_features fs i) (pick (id_features fs) i)"
    using ne by (rule pick_first_max)
  then have "pick (id_features fs) i \<in> set (id_features fs i)"
    by (rule first_max_in_mem)
  then show ?thesis by (simp add: id_features_eq)
qed

lemma filter_map_distinct:
  assumes "distinct js" "i \<in> set js" "\<And>j. j \<in> set js \<Longrightarrow> g (h j) = j"
  shows "filter (\<lambda>f. g f = i) (map h js) = [h i]"
  using assms by (induction js) (auto simp: filter_empty_conv)

lemma dedup_group:
  assumes "i \<in> fid ` set fs"
  shows "filter (\<lambda>f. fid f = i) (fst (snd (dedup fs))) = [pick (id_features fs) i]"
proof -
  have "i \<in> set (fresh {} (map fid fs))" using assms by (simp add: fresh_set)
  moreover have "fid (pick (id_features fs) j) = j" if "j \<in> set (fresh {} (map fid fs))" for j
    using that fid_pick [of j fs] by (simp add: fresh_set)
  ultimately show ?thesis
    by (simp add: dedup_eq filter_map_distinct [OF fresh_distinct])
qed

lemma table_2010: "map_of BOUNDARY_RENAMES ''2010'' = Some renames_2010"
  by (simp add: BOUNDARY_RENAMES_def)

lemma fix_boundary_file_dedup:
  assumes "version \<in> set DEDUP_VERSIONS"
      and "map_of BOUNDARY_RENAMES version = Some table"
      and "rename_stage version (map_of table) features0 = (renamed, modified, rename_count)"
  shows "fst (fix_boundary_file version features0) =
           (if fst (dedup renamed) > 0 then fst (snd (dedup renamed)) else renamed)"
  using assms by (simp add: fix_boundary_file_def split: prod.splits)

lemma no_duplicates_group:
  assumes "fst (dedup fs) = 0" "f \<in> set fs"
  shows "filter (\<lambda>g. fid g = fid f) fs = [f]"
proof -
  have "fid f \<in> set (fresh {} (map fid fs))" using assms(2) by (simp add: fresh_set)
  moreover have "\<forall>i \<in> set (fresh {} (map fid fs)). length (id_features fs i) - 1 = 0"
    using assms(1) by (simp add: dedup_eq sum_list_eq_0_iff)
  ultimately have len: "length (filter (\<lambda>g. fid g = fid f) fs) \<le> 1"
    by (auto simp: id_features_eq)
  have "f \<in> set (filter (\<lambda>g. fid g = fid f) fs)" using assms(2) by simp
  then show ?thesis using len
    by (cases "filter (\<lambda>g. fid g = fid f) fs") auto
qed

text \<open>
  C2. In an era of the deduplication set, for every group of features sharing one
  identifier after the renames, the document \<^verbatim>\<open>fix_boundary_files\<close> leaves holds
  exactly one feature with that identifier: the member of the group with the greatest
  coordinate-point count, the first such member in document order on a tie. The other
  members of the group are gone, and the only member of a group of size one is kept.
\<close>

theorem dedup_retains_first_largest:
  assumes "version \<in> set DEDUP_VERSIONS"
      and "map_of BOUNDARY_RENAMES version = Some table"
      and "rename_stage version (map_of table) features0 = (renamed, modified, rename_count)"
      and "f \<in> set renamed"
  shows "\<exists>best.
           filter (\<lambda>g. fid g = fid f) (fst (fix_boundary_file version features0)) = [best] \<and>
           first_max_in count_coords (filter (\<lambda>g. fid g = fid f) renamed) best \<and>
           (length (filter (\<lambda>g. fid g = fid f) renamed) = 1 \<longrightarrow> best = f)"
proof (cases "fst (dedup renamed) > 0")
  case True
  let ?group = "filter (\<lambda>g. fid g = fid f) renamed"
  let ?best = "pick (id_features renamed) (fid f)"
  have res: "fst (fix_boundary_file version features0) = fst (snd (dedup renamed))"
    using fix_boundary_file_dedup [OF assms(1-3)] True by simp
  have mem: "f \<in> set ?group" using assms(4) by simp
  from mem have "0 < length ?group" by (rule length_pos_if_in_set)
  then have "?group \<noteq> []" by simp
  then have ne: "id_features renamed (fid f) \<noteq> []" unfolding id_features_eq .
  have one: "filter (\<lambda>g. fid g = fid f) (fst (snd (dedup renamed))) = [?best]"
    using assms(4) by (intro dedup_group) simp
  have fm: "first_max_in count_coords ?group ?best"
    using pick_first_max [of "id_features renamed" "fid f"] ne by (simp add: id_features_eq)
  have "?best = f" if "length ?group = 1"
  proof -
    from that mem have "?group = [f]" by (cases ?group) auto
    moreover have "?best \<in> set ?group" using fm by (rule first_max_in_mem)
    ultimately show ?thesis by simp
  qed
  then show ?thesis using res one fm by auto
next
  case False
  then have zero: "fst (dedup renamed) = 0" by simp
  have res: "fst (fix_boundary_file version features0) = renamed"
    using fix_boundary_file_dedup [OF assms(1-3)] False by simp
  have grp: "filter (\<lambda>g. fid g = fid f) renamed = [f]"
    using zero assms(4) by (rule no_duplicates_group)
  have "first_max_in count_coords [f] f" by (simp add: first_max_in_def)
  then show ?thesis using res grp by simp
qed

theorem dedup_retains_first_largest_witness:
  "fst (fix_boundary_file ''2010''
         [feature_of ''EC_A'' (Polygon [[(0, 0), (1, 0), (1, 1)]]),
          feature_of ''EC_RIBBLE_SOUTH'' (Polygon [[(0, 0)]]),
          feature_of ''EC_SOUTH_RIBBLE'' (Polygon [[(0, 0), (1, 0), (1, 1), (0, 0)]]),
          feature_of ''EC_RIBBLE_SOUTH'' (MultiPolygon [[[(0, 0), (1, 0)], [(1, 1), (0, 0)]]])])
     = [feature_of ''EC_A'' (Polygon [[(0, 0), (1, 0), (1, 1)]]),
        feature_of ''EC_RIBBLE_SOUTH'' (Polygon [[(0, 0), (1, 0), (1, 1), (0, 0)]])] \<and>
   first_max_in count_coords
     [feature_of ''EC_RIBBLE_SOUTH'' (Polygon [[(0, 0)]]),
      feature_of ''EC_RIBBLE_SOUTH'' (Polygon [[(0, 0), (1, 0), (1, 1), (0, 0)]]),
      feature_of ''EC_RIBBLE_SOUTH'' (MultiPolygon [[[(0, 0), (1, 0)], [(1, 1), (0, 0)]]])]
     (feature_of ''EC_RIBBLE_SOUTH'' (Polygon [[(0, 0), (1, 0), (1, 1), (0, 0)]]))"
proof -
  let ?a = "feature_of ''EC_A'' (Polygon [[(0, 0), (1, 0), (1, 1)]])"
  let ?small = "feature_of ''EC_RIBBLE_SOUTH'' (Polygon [[(0, 0)]])"
  let ?old = "feature_of ''EC_SOUTH_RIBBLE'' (Polygon [[(0, 0), (1, 0), (1, 1), (0, 0)]])"
  let ?new = "feature_of ''EC_RIBBLE_SOUTH'' (Polygon [[(0, 0), (1, 0), (1, 1), (0, 0)]])"
  let ?multi = "feature_of ''EC_RIBBLE_SOUTH'' (MultiPolygon [[[(0, 0), (1, 0)], [(1, 1), (0, 0)]]])"
  have era: "''2010'' \<in> set DEDUP_VERSIONS" by (simp add: DEDUP_VERSIONS_def)
  have stage: "rename_stage ''2010'' (map_of renames_2010) [?a, ?small, ?old, ?multi]
                 = ([?a, ?small, ?new, ?multi], True, 1)"
    by code_simp
  have run: "fst (fix_boundary_file ''2010'' [?a, ?small, ?old, ?multi]) = [?a, ?new]"
    by code_simp
  have mem: "?small \<in> set [?a, ?small, ?new, ?multi]" by simp
  have group: "filter (\<lambda>g. fid g = fid ?small) [?a, ?small, ?new, ?multi] = [?small, ?new, ?multi]"
    by (simp add: feature_of_def)
  have kept: "filter (\<lambda>g. fid g = fid ?small) [?a, ?new] = [?new]"
    by (simp add: feature_of_def)
  obtain best where
    "filter (\<lambda>g. fid g = fid ?small) (fst (fix_boundary_file ''2010'' [?a, ?small, ?old, ?multi])) = [best]"
    "first_max_in count_coords (filter (\<lambda>g. fid g = fid ?small) [?a, ?small, ?new, ?multi]) best"
    using dedup_retains_first_largest [OF era table_2010 stage mem] by blast
  then have "first_max_in count_coords [?small, ?new, ?multi] ?new"
    unfolding run group kept by simp
  then show ?thesis using run by simp
qed

lemma fold_add_length: "fold (\<lambda>ring total. total + length ring) rings n = n + length (concat rings)"
  by (induction rings arbitrary: n) simp_all

lemma fold_append_rings: "fold (\<lambda>ring points. points @ ring) rings ps = ps @ concat rings"
  by (induction rings arbitrary: ps) simp_all

lemma fold_add_length_polygons:
  "fold (\<lambda>polygon total. fold (\<lambda>ring total. total + length ring) polygon total) polygons n =
     n + length (concat (concat polygons))"
  by (induction polygons arbitrary: n) (simp_all add: fold_add_length)

lemma fold_append_polygons:
  "fold (\<lambda>polygon points. fold (\<lambda>ring points. points @ ring) polygon points) polygons ps =
     ps @ concat (concat polygons)"
  by (induction polygons arbitrary: ps) (simp_all add: fold_append_rings)

lemma length_all_points: "length (all_points (geometry f)) = count_coords f"
  by (cases "geometry f")
     (simp_all add: all_points_def count_coords_def fold_add_length fold_append_rings
        fold_add_length_polygons fold_append_polygons)

lemma get_centroid_lat_no_points: "count_coords f = 0 \<Longrightarrow> get_centroid_lat f = 0"
  using length_all_points [of f] by (simp add: get_centroid_lat_def)

lemma count_coords_other: "geometry f = OtherGeometry t \<Longrightarrow> count_coords f = 0"
  by (simp add: count_coords_def)

lemma richmond_split_south:
  assumes "fid f = ''EC_RICHMOND''" "get_centroid_lat f \<le> 53"
  shows "touched richmond_split f =
           f\<lparr>fid := ''EC_RICHMOND__SURREY_'', Name := Some ''Richmond (Surrey)'',
             normalizedName := Some ''Richmond (Surrey)''\<rparr>"
  using assms by (simp add: touched_def richmond_split_def Let_def)

lemma surrey_not_renamed:
  "map_of renames_1955 ''EC_RICHMOND__SURREY_'' = None"
  "map_of renames_1974 ''EC_RICHMOND__SURREY_'' = None"
  by (simp_all add: renames_1955_def renames_1974_def)

lemma fix_boundary_file_split_version:
  assumes "version \<in> set RICHMOND_SPLIT_VERSIONS"
  shows "\<exists>table. map_of table ''EC_RICHMOND__SURREY_'' = None \<and>
           fst (fix_boundary_file version features) =
             map (touched (apply_rename (map_of table))) (map (touched richmond_split) features)"
proof -
  from assms consider "version = ''1955''" | "version = ''1974''"
    by (auto simp: RICHMOND_SPLIT_VERSIONS_def)
  then show ?thesis
  proof cases
    case 1
    have "fst (fix_boundary_file version features) =
            map (touched (apply_rename (map_of renames_1955))) (map (touched richmond_split) features)"
      unfolding 1
      by (simp add: fix_boundary_file_def BOUNDARY_RENAMES_def rename_stage_def
            RICHMOND_SPLIT_VERSIONS_def EMPTY_FEATURE_VERSIONS_def DEDUP_VERSIONS_def for_each_eq)
    then show ?thesis using surrey_not_renamed(1) by blast
  next
    case 2
    have "fst (fix_boundary_file version features) =
            map (touched (apply_rename (map_of renames_1974))) (map (touched richmond_split) features)"
      unfolding 2
      by (simp add: fix_boundary_file_def BOUNDARY_RENAMES_def rename_stage_def
            RICHMOND_SPLIT_VERSIONS_def EMPTY_FEATURE_VERSIONS_def DEDUP_VERSIONS_def for_each_eq)
    then show ?thesis using surrey_not_renamed(2) by blast
  qed
qed

text \<open>
  C9. For a feature whose geometry has no coordinate point, or whose geometry type is
  neither Polygon nor MultiPolygon, \<^verbatim>\<open>get_centroid_lat\<close> returns \<open>0\<close>; and in an era
  of the latitude split a feature \<^verbatim>\<open>EC_RICHMOND\<close> with such a geometry, or with a mean
  latitude of exactly \<open>53\<close>, leaves \<^verbatim>\<open>fix_boundary_files\<close> as
  \<^verbatim>\<open>EC_RICHMOND__SURREY_\<close>, named \<^verbatim>\<open>Richmond (Surrey)\<close>: the comparison with
  \<open>53\<close> is strict.
\<close>

theorem richmond_split_edge_cases:
  assumes "version \<in> set RICHMOND_SPLIT_VERSIONS"
      and "k < length features"
      and "fid (features ! k) = ''EC_RICHMOND''"
      and "(\<exists>t. geometry (features ! k) = OtherGeometry t) \<or> count_coords (features ! k) = 0 \<or>
           get_centroid_lat (features ! k) = 53"
  shows "((\<exists>t. geometry (features ! k) = OtherGeometry t) \<or> count_coords (features ! k) = 0
            \<longrightarrow> get_centroid_lat (features ! k) = 0) \<and>
         fst (fix_boundary_file version features) ! k =
           (features ! k)\<lparr>fid := ''EC_RICHMOND__SURREY_'', Name := Some ''Richmond (Surrey)'',
                          normalizedName := Some ''Richmond (Surrey)''\<rparr>"
proof -
  let ?f = "features ! k"
  have zero: "get_centroid_lat ?f = 0"
    if "(\<exists>t. geometry ?f = OtherGeometry t) \<or> count_coords ?f = 0"
    using that count_coords_other get_centroid_lat_no_points by blast
  then have south: "get_centroid_lat ?f \<le> 53" using assms(4) by fastforce
  obtain table where none: "map_of table ''EC_RICHMOND__SURREY_'' = None"
    and res: "fst (fix_boundary_file version features) =
           map (touched (apply_rename (map_of table))) (map (touched richmond_split) features)"
    using fix_boundary_file_split_version [OF assms(1)] by blast
  have "fst (fix_boundary_file version features) ! k =
          touched (apply_rename (map_of table)) (touched richmond_split ?f)"
    using assms(2) by (simp add: res)
  also have "\<dots> = touched (apply_rename (map_of table))
                      (?f\<lparr>fid := ''EC_RICHMOND__SURREY_'', Name := Some ''Richmond (Surrey)'',
                          normalizedName := Some ''Richmond (Surrey)''\<rparr>)"
    by (simp only: richmond_split_south [OF assms(3) south])
  also have "\<dots> = ?f\<lparr>fid := ''EC_RICHMOND__SURREY_'', Name := Some ''Richmond (Surrey)'',
                          normalizedName := Some ''Richmond (Surrey)''\<rparr>"
    using none by (simp add: touched_def apply_rename_def)
  finally show ?thesis using zero by blast
qed

theorem richmond_split_edge_cases_witness:
  "get_centroid_lat (feature_of ''EC_RICHMOND'' (OtherGeometry ''Point'')) = 0 \<and>
   fst (fix_boundary_file ''1955''
          [feature_of ''EC_RICHMOND'' (OtherGeometry ''Point''),
           feature_of ''EC_RICHMOND'' (Polygon [[(0, 52), (1, 54)]])]) ! 0
     = (feature_of ''EC_RICHMOND'' (OtherGeometry ''Point''))
         \<lparr>fid := ''EC_RICHMOND__SURREY_'', Name := Some ''Richmond (Surrey)'',
          normalizedName := Some ''Richmond (Surrey)''\<rparr> \<and>
   get_centroid_lat (feature_of ''EC_RICHMOND'' (Polygon [[(0, 52), (1, 54)]])) = 53 \<and>
   fst (fix_boundary_file ''1955''
          [feature_of ''EC_RICHMOND'' (OtherGeometry ''Point''),
           feature_of ''EC_RICHMOND'' (Polygon [[(0, 52), (1, 54)]])]) ! 1
     = (feature_of ''EC_RICHMOND'' (Polygon [[(0, 52), (1, 54)]]))
         \<lparr>fid := ''EC_RICHMOND__SURREY_'', Name := Some ''Richmond (Surrey)'',
          normalizedName := Some ''Richmond (Surrey)''\<rparr>"
proof -
  let ?p = "feature_of ''EC_RICHMOND'' (OtherGeometry ''Point'')"
  let ?q = "feature_of ''EC_RICHMOND'' (Polygon [[(0, 52), (1, 54)]])"
  have era: "''1955'' \<in> set RICHMOND_SPLIT_VERSIONS" by (simp add: RICHMOND_SPLIT_VERSIONS_def)
  have lat: "get_centroid_lat ?q = 53"
    by (simp add: get_centroid_lat_def all_points_def feature_of_def)
  have k0: "(0::nat) < length [?p, ?q]" and k1: "(1::nat) < length [?p, ?q]" by simp_all
  have id0: "fid ([?p, ?q] ! 0) = ''EC_RICHMOND''" and id1: "fid ([?p, ?q] ! 1) = ''EC_RICHMOND''"
    by (simp_all add: feature_of_def)
  have c0: "(\<exists>t. geometry ([?p, ?q] ! 0) = OtherGeometry t) \<or> count_coords ([?p, ?q] ! 0) = 0 \<or>
            get_centroid_lat ([?p, ?q] ! 0) = 53"
    by (simp add: feature_of_def)
  have c1: "(\<exists>t. geometry ([?p, ?q] ! 1) = OtherGeometry t) \<or> count_coords ([?p, ?q] ! 1) = 0 \<or>
            get_centroid_lat ([?p, ?q] ! 1) = 53"
    using lat by simp
  have other: "\<exists>t. geometry ([?p, ?q] ! 0) = OtherGeometry t" by (simp add: feature_of_def)
  show ?thesis
    using richmond_split_edge_cases [OF era k0 id0 c0] richmond_split_edge_cases [OF era k1 id1 c1]
      other lat
    by simp
qed

text \<open>
  \<^verbatim>\<open>sync_boundary_names\<close> leaves every feature it touches with a
  \<^verbatim>\<open>normalizedName\<close> that is the normalization of its \<^verbatim>\<open>Name\<close>.
\<close>

lemma sync_feature_invariant:
  assumes "sync_feature name_lookup f = Some f'"
  shows "\<exists>n. Name f' = Some n \<and> normalizedName f' = Some (normalize_constituency_name n)"
  using assms by (auto simp: sync_feature_def Let_def split: option.splits if_splits)

text \<open>
  C3. The claim is that every operation assigning a display name stores, as
  \<^verbatim>\<open>normalizedName\<close>, the normalization of that name. The latitude split and the
  empty-identifier repair store the display name itself: on a 1955 document holding
  \<^verbatim>\<open>EC_RICHMOND\<close> the stored \<^verbatim>\<open>normalizedName\<close> is \<^verbatim>\<open>Richmond (Surrey)\<close>, whose
  normalization is \<^verbatim>\<open>richmond (surrey)\<close>, and on a 1997 document holding
  \<^verbatim>\<open>EC_\<close> it is \<^verbatim>\<open>Southend West\<close>, whose normalization is \<^verbatim>\<open>southend west\<close>.
\<close>

theorem repairs_store_unnormalized_name:
  "fst (fix_boundary_file ''1955'' [feature_of ''EC_RICHMOND'' (Polygon [])])
     = [\<lparr>fid = ''EC_RICHMOND__SURREY_'', Name = Some ''Richmond (Surrey)'',
         normalizedName = Some ''Richmond (Surrey)'', geometry = Polygon []\<rparr>] \<and>
   normalize_constituency_name ''Richmond (Surrey)'' = ''richmond (surrey)'' \<and>
   fst (fix_boundary_file ''1997'' [feature_of ''EC_'' (Polygon [])])
     = [\<lparr>fid = ''EC_SOUTHEND_WEST'', Name = Some ''Southend West'',
         normalizedName = Some ''Southend West'', geometry = Polygon []\<rparr>] \<and>
   normalize_constituency_name ''Southend West'' = ''southend west''"
proof (intro conjI)
  show "fst (fix_boundary_file ''1955'' [feature_of ''EC_RICHMOND'' (Polygon [])])
     = [\<lparr>fid = ''EC_RICHMOND__SURREY_'', Name = Some ''Richmond (Surrey)'',
         normalizedName = Some ''Richmond (Surrey)'', geometry = Polygon []\<rparr>]"
    by code_simp
  show "normalize_constituency_name ''Richmond (Surrey)'' = ''richmond (surrey)''"
    by code_simp
  show "fst (fix_boundary_file ''1997'' [feature_of ''EC_'' (Polygon [])])
     = [\<lparr>fid = ''EC_SOUTHEND_WEST'', Name = Some ''Southend West'',
         normalizedName = Some ''Southend West'', geometry = Polygon []\<rparr>]"
    by code_simp
  show "normalize_constituency_name ''Southend West'' = ''southend west''"
    by code_simp
qed

section \<open>Validation: proofs\<close>

lemma boundary_ids_eq: "boundary_ids features = {i \<in> fid ` set features. i \<noteq> []}"
  by (auto simp: boundary_ids_def)

lemma election_ids_eq: "election_ids constituencies = constituencyId ` set constituencies"
  by (simp add: election_ids_def)

lemma missing_from_boundary_eq:
  "missing_from_boundary year_str constituencies features =
     {c \<in> constituencyId ` set constituencies.
        c \<notin> {i \<in> fid ` set features. i \<noteq> []} \<and> (year_str, c) \<notin> known_exceptions}"
  by (auto simp: missing_from_boundary_def boundary_ids_eq election_ids_eq)

lemma missing_from_election_eq:
  "missing_from_election constituencies features =
     {i \<in> fid ` set features. i \<noteq> []} - constituencyId ` set constituencies"
  by (simp add: missing_from_election_def boundary_ids_eq election_ids_eq)

text \<open>
  C5, as the claim states it: the validator reports exactly the symmetric difference of
  the two identifier sets minus the allow-list, and never an identifier present on both
  sides. Three runs of \<^verbatim>\<open>validate\<close>'s loop body show otherwise. For the election year
  1992, an identifier of the allow-list that the boundary document has and the result
  document lacks is reported as missing from the election. With eleven result identifiers
  missing from the boundary document, eleven mismatches are counted and ten are listed.
  And the empty identifier, present on both sides, is reported as missing from the
  boundary document, because empty boundary identifiers are filtered out first.
\<close>

theorem validate_pair_counterexample:
  "listed_missing_from_election
     (validate_pair ''1992'' [constituency_of ''EC_A'']
        [feature_of ''EC_A'' (Polygon []), feature_of ''EC_MILTON_KEYNES_NORTH_EAST'' (Polygon [])])
     = [''EC_MILTON_KEYNES_NORTH_EAST''] \<and>
   (''1992'', ''EC_MILTON_KEYNES_NORTH_EAST'') \<in> known_exceptions \<and>
   validate_pair ''2024''
     (map constituency_of
        [''EC_A'', ''EC_B'', ''EC_C'', ''EC_D'', ''EC_E'', ''EC_F'', ''EC_G'', ''EC_H'', ''EC_I'',
         ''EC_J'', ''EC_K'', ''EC_L''])
     [feature_of ''EC_A'' (Polygon [])]
     = \<lparr>mismatches = 11,
        listed_missing_from_boundary =
          [''EC_B'', ''EC_C'', ''EC_D'', ''EC_E'', ''EC_F'', ''EC_G'', ''EC_H'', ''EC_I'', ''EC_J'',
           ''EC_K''],
        listed_missing_from_election = []\<rparr> \<and>
   listed_missing_from_boundary
     (validate_pair ''2024'' [constituency_of []] [feature_of [] (Polygon [])]) = [[]]"
proof (intro conjI)
  show "listed_missing_from_election
     (validate_pair ''1992'' [constituency_of ''EC_A'']
        [feature_of ''EC_A'' (Polygon []), feature_of ''EC_MILTON_KEYNES_NORTH_EAST'' (Polygon [])])
     = [''EC_MILTON_KEYNES_NORTH_EAST'']"
    by code_simp
  show "(''1992'', ''EC_MILTON_KEYNES_NORTH_EAST'') \<in> known_exceptions"
    by (simp add: known_exceptions_def)
  show "validate_pair ''2024''
     (map constituency_of
        [''EC_A'', ''EC_B'', ''EC_C'', ''EC_D'', ''EC_E'', ''EC_F'', ''EC_G'', ''EC_H'', ''EC_I'',
         ''EC_J'', ''EC_K'', ''EC_L''])
     [feature_of ''EC_A'' (Polygon [])]
     = \<lparr>mismatches = 11,
        listed_missing_from_boundary =
          [''EC_B'', ''EC_C'', ''EC_D'', ''EC_E'', ''EC_F'', ''EC_G'', ''EC_H'', ''EC_I'', ''EC_J'',
           ''EC_K''],
        listed_missing_from_election = []\<rparr>"
    by code_simp
  show "listed_missing_from_boundary
     (validate_pair ''2024'' [constituency_of []] [feature_of [] (Polygon [])]) = [[]]"
    by code_simp
qed

text \<open>
  C5, amended. For every pair of a result document and the boundary document of its era,
  the validator takes as missing from the boundary the result identifiers that are not
  among the non-empty identifiers of the boundary document, minus those the allow-list
  pairs with the election year; and as missing from the election the non-empty
  identifiers of the boundary document that the result document lacks, with no allow-list
  on this side. It counts all of them and lists, for each side, the first ten in sorted
  order. So an identifier of the result document absent from the boundary document is
  counted as missing from the boundary, and listed when among the first ten, unless the
  allow-list holds it for that election year; and a non-empty identifier present on both
  sides is in neither set.
\<close>

theorem validate_pair_report:
  "validate_pair year_str constituencies features =
     \<lparr>mismatches =
        card {c \<in> constituencyId ` set constituencies.
                c \<notin> {i \<in> fid ` set features. i \<noteq> []} \<and> (year_str, c) \<notin> known_exceptions} +
        card ({i \<in> fid ` set features. i \<noteq> []} - constituencyId ` set constituencies),
      listed_missing_from_boundary =
        take 10 (sorted_list_of_set
          {c \<in> constituencyId ` set constituencies.
             c \<notin> {i \<in> fid ` set features. i \<noteq> []} \<and> (year_str, c) \<notin> known_exceptions}),
      listed_missing_from_election =
        take 10 (sorted_list_of_set
          ({i \<in> fid ` set features. i \<noteq> []} - constituencyId ` set constituencies))\<rparr>"
  unfolding validate_pair_def Let_def missing_from_boundary_eq [symmetric]
    missing_from_election_eq [symmetric]
  by simp

theorem validate_pair_report_witness:
  "validate_pair ''2024'' (map constituency_of [''EC_A'', ''EC_B'', ''EC_C''])
     [feature_of ''EC_A'' (Polygon []), feature_of ''EC_B'' (Polygon [])]
     = \<lparr>mismatches = 1, listed_missing_from_boundary = [''EC_C''],
        listed_missing_from_election = []\<rparr> \<and>
   take 10 (sorted_list_of_set
     {c \<in> constituencyId ` set (map constituency_of [''EC_A'', ''EC_B'', ''EC_C'']).
        c \<notin> {i \<in> fid ` set [feature_of ''EC_A'' (Polygon []), feature_of ''EC_B'' (Polygon [])].
                i \<noteq> []} \<and>
        (''2024'', c) \<notin> known_exceptions}) = [''EC_C'']"
proof -
  have run: "validate_pair ''2024'' (map constituency_of [''EC_A'', ''EC_B'', ''EC_C''])
     [feature_of ''EC_A'' (Polygon []), feature_of ''EC_B'' (Polygon [])]
     = \<lparr>mismatches = 1, listed_missing_from_boundary = [''EC_C''],
        listed_missing_from_election = []\<rparr>"
    by code_simp
  have "listed_missing_from_boundary
          (validate_pair ''2024'' (map constituency_of [''EC_A'', ''EC_B'', ''EC_C''])
             [feature_of ''EC_A'' (Polygon []), feature_of ''EC_B'' (Polygon [])])
        = take 10 (sorted_list_of_set
           {c \<in> constituencyId ` set (map constituency_of [''EC_A'', ''EC_B'', ''EC_C'']).
              c \<notin> {i \<in> fid ` set [feature_of ''EC_A'' (Polygon []), feature_of ''EC_B'' (Polygon [])].
                      i \<noteq> []} \<and>
              (''2024'', c) \<notin> known_exceptions})"
    by (subst validate_pair_report) (simp only: report.simps)
  then show ?thesis unfolding run by (simp only: report.simps simp_thms)
qed

section \<open>The clipper: proofs\<close>

lemma collect_map_cases:
  assumes "\<And>c. c \<in> set cs \<Longrightarrow> f c = (if P c then Inl e else Inr (g c))"
  shows "collect (map f cs) = (if list_ex P cs then Inl e else Inr (map g cs))"
  using assms by (induction cs) auto

lemma round_number_num: "is_number c \<Longrightarrow> round_number rnd c = Inr (map_json rnd c)"
  by (cases c) simp_all

lemma num_no_empty: "is_number c \<Longrightarrow> \<not> has_empty c"
  by (cases c) simp_all

lemma round_coords_homogeneous:
  "homogeneous t \<Longrightarrow> \<not> is_number t \<Longrightarrow>
     round_coords rnd t = (if has_empty t then Inl IndexError else Inr (map_json rnd t))"
proof (induction rnd t rule: round_coords.induct)
  case (1 rnd x)
  then show ?case by simp
next
  case (2 rnd)
  show ?case by simp
next
  case (3 rnd x cs)
  let ?cs = "Num x # cs"
  have nums: "\<forall>c \<in> set ?cs. is_number c"
    using 3(1) by (auto simp: list_all_iff)
  have "collect (map (round_number rnd) ?cs) =
               (if list_ex (\<lambda>c. False) ?cs then Inl IndexError else Inr (map (map_json rnd) ?cs))"
  proof (rule collect_map_cases)
    fix c assume "c \<in> set ?cs"
    then have "is_number c" using nums by blast
    then show "round_number rnd c = (if False then Inl IndexError else Inr (map_json rnd c))"
      by (simp add: round_number_num)
  qed
  moreover have "\<not> list_ex has_empty ?cs"
    using nums by (auto simp: list_ex_iff num_no_empty)
  ultimately show ?case by (simp add: list_ex_iff)
next
  case (4 rnd a cs)
  let ?cs = "Arr a # cs"
  have arrs: "\<forall>c \<in> set ?cs. \<not> is_number c" and hom: "\<forall>c \<in> set ?cs. homogeneous c"
    using 4(2) by (auto simp: list_all_iff)
  have "collect (map (round_coords rnd) ?cs) =
          (if list_ex has_empty ?cs then Inl IndexError else Inr (map (map_json rnd) ?cs))"
  proof (rule collect_map_cases)
    fix c assume "c \<in> set ?cs"
    then show "round_coords rnd c = (if has_empty c then Inl IndexError else Inr (map_json rnd c))"
      using 4(1) arrs hom by blast
  qed
  then show ?case by simp
qed

text \<open>
  C10. \<^verbatim>\<open>round_coords\<close> reads the first element of its argument without a check. On a
  coordinate array (a homogeneous tree of arrays) it raises \<^verbatim>\<open>IndexError\<close> exactly
  when some array of the tree, at any depth, is empty; when every array is non-empty it
  returns, and the result has the shape of the argument with every number rounded.
\<close>

theorem round_coords_partial:
  assumes "homogeneous (Arr cs)"
  shows "round_coords rnd (Arr cs) =
           (if has_empty (Arr cs) then Inl IndexError else Inr (map_json rnd (Arr cs)))"
  using assms by (intro round_coords_homogeneous) simp_all

theorem round_coords_partial_witness:
  "round_coords (\<lambda>x. real_of_int (round (x * 1000)) / 1000)
     (Arr [Arr [Arr [Num 1.23456, Num 51.5], Arr []]]) = Inl IndexError \<and>
   round_coords (\<lambda>x. real_of_int (round (x * 1000)) / 1000)
     (Arr [Arr [Arr [Num 1.23456, Num 51.5], Arr [Num 1.2, Num 51.50049]]])
     = Inr (Arr [Arr [Arr [Num 1.235, Num 51.5], Arr [Num 1.2, Num 51.5]]])"
proof -
  let ?rnd = "\<lambda>x. real_of_int (round (x * 1000)) / 1000"
  have h1: "homogeneous (Arr [Arr [Arr [Num 1.23456, Num 51.5], Arr []]])" by simp
  have e1: "has_empty (Arr [Arr [Arr [Num 1.23456, Num 51.5], Arr []]])" by simp
  have h2: "homogeneous (Arr [Arr [Arr [Num 1.23456, Num 51.5], Arr [Num 1.2, Num 51.50049]]])"
    by simp
  have e2: "\<not> has_empty (Arr [Arr [Arr [Num 1.23456, Num 51.5], Arr [Num 1.2, Num 51.50049]]])"
    by simp
  have m2: "map_json ?rnd (Arr [Arr [Arr [Num 1.23456, Num 51.5], Arr [Num 1.2, Num 51.50049]]])
              = Arr [Arr [Arr [Num 1.235, Num 51.5], Arr [Num 1.2, Num 51.5]]]"
    by code_simp
  show ?thesis
    using round_coords_partial [OF h1, of ?rnd] round_coords_partial [OF h2, of ?rnd] e1 e2 m2
    by simp
qed

text \<open>
  C6. Whenever the loop body returns for a feature, it has replaced the feature's geometry
  and counted the feature as modified if and only if clipping produced a rounded result
  whose geometry type or coordinate-point count differs from the input's; otherwise the
  feature is exactly as it was.
\<close>

theorem clip_replaces_iff_changed:
  assumes "clip_feature E land_mask f = Inr (f', modified, coords_before, coords_after, printed)"
  shows "(modified \<longleftrightarrow>
            (\<exists>result_dict.
               clip_geometry E land_mask (case raw_id f of None \<Rightarrow> ''?'' | Some i \<Rightarrow> i)
                 (raw_geometry f) = Inr (Inr result_dict) \<and>
               (gtype result_dict \<noteq> gtype (raw_geometry f) \<or>
                count_coords_clip result_dict \<noteq> count_coords_clip (raw_geometry f)))) \<and>
         (if modified
          then \<exists>result_dict.
                 clip_geometry E land_mask (case raw_id f of None \<Rightarrow> ''?'' | Some i \<Rightarrow> i)
                   (raw_geometry f) = Inr (Inr result_dict) \<and>
                 f' = f\<lparr>raw_geometry := result_dict\<rparr>
          else f' = f)"
  using assms
  by (auto simp: clip_feature_def Let_def split: sum.splits if_splits)

theorem clip_replaces_iff_changed_witness:
  "clip_feature (example_engine (\<lambda>g. True))
     (SGeom False ''Polygon'' 1 []
        \<lparr>gtype = ''Polygon'',
         coordinates = Arr [Arr [Arr [Num 0, Num 50], Arr [Num 1.00049, Num 50], Arr [Num 1, Num 51],
                                 Arr [Num 0, Num 50]]]\<rparr>)
     \<lparr>raw_id = Some ''EC_X'',
      raw_geometry =
        \<lparr>gtype = ''Polygon'',
         coordinates = Arr [Arr [Arr [Num 0, Num 50], Arr [Num 2, Num 50], Arr [Num 2, Num 52],
                                 Arr [Num 0, Num 52], Arr [Num 0, Num 50]]]\<rparr>\<rparr>
   = Inr (\<lparr>raw_id = Some ''EC_X'',
           raw_geometry =
             \<lparr>gtype = ''Polygon'',
              coordinates = Arr [Arr [Arr [Num 0, Num 50], Arr [Num 1, Num 50], Arr [Num 1, Num 51],
                                      Arr [Num 0, Num 50]]]\<rparr>\<rparr>,
          True, 5, 4, []) \<and>
   (\<exists>result_dict.
      clip_geometry (example_engine (\<lambda>g. True))
        (SGeom False ''Polygon'' 1 []
           \<lparr>gtype = ''Polygon'',
            coordinates = Arr [Arr [Arr [Num 0, Num 50], Arr [Num 1.00049, Num 50],
                                    Arr [Num 1, Num 51], Arr [Num 0, Num 50]]]\<rparr>)
        ''EC_X''
        \<lparr>gtype = ''Polygon'',
         coordinates = Arr [Arr [Arr [Num 0, Num 50], Arr [Num 2, Num 50], Arr [Num 2, Num 52],
                                 Arr [Num 0, Num 52], Arr [Num 0, Num 50]]]\<rparr>
        = Inr (Inr result_dict) \<and>
      count_coords_clip result_dict = Inr 4)"
proof -
  let ?mask = "SGeom False ''Polygon'' 1 []
        \<lparr>gtype = ''Polygon'',
         coordinates = Arr [Arr [Arr [Num 0, Num 50], Arr [Num 1.00049, Num 50], Arr [Num 1, Num 51],
                                 Arr [Num 0, Num 50]]]\<rparr>"
  let ?g = "\<lparr>gtype = ''Polygon'',
         coordinates = Arr [Arr [Arr [Num 0, Num 50], Arr [Num 2, Num 50], Arr [Num 2, Num 52],
                                 Arr [Num 0, Num 52], Arr [Num 0, Num 50]]]\<rparr>"
  let ?r = "\<lparr>gtype = ''Polygon'',
              coordinates = Arr [Arr [Arr [Num 0, Num 50], Arr [Num 1, Num 50], Arr [Num 1, Num 51],
                                      Arr [Num 0, Num 50]]]\<rparr>"
  have run: "clip_feature (example_engine (\<lambda>g. True)) ?mask \<lparr>raw_id = Some ''EC_X'', raw_geometry = ?g\<rparr>
               = Inr (\<lparr>raw_id = Some ''EC_X'', raw_geometry = ?r\<rparr>, True, 5, 4, [])"
    by code_simp
  have cnt: "count_coords_clip ?r = Inr 4"
    by (simp add: count_coords_clip_def)
  obtain result_dict where
    geo: "clip_geometry (example_engine (\<lambda>g. True)) ?mask ''EC_X'' ?g = Inr (Inr result_dict)"
    and new: "\<lparr>raw_id = Some ''EC_X'', raw_geometry = ?r\<rparr>
                = \<lparr>raw_id = Some ''EC_X'', raw_geometry = ?g\<rparr>\<lparr>raw_geometry := result_dict\<rparr>"
    using clip_replaces_iff_changed [OF run] by auto
  from new have "result_dict = ?r" by simp
  then show ?thesis using run geo cnt by simp
qed

lemma clip_feature_skip:
  assumes "count_coords_clip (raw_geometry f) = Inr n"
      and "clip_geometry E land_mask (case raw_id f of None \<Rightarrow> ''?'' | Some i \<Rightarrow> i) (raw_geometry f)
             = Inr (Inl printed)"
  shows "clip_feature E land_mask f = Inr (f, False, n, n, printed)"
  using assms by (simp add: clip_feature_def)

lemma clip_geometry_parse_failure:
  assumes "shape E g = Inl msg"
  shows "clip_geometry E land_mask fid_text g = Inr (Inl [])"
  using assms by (simp add: clip_geometry_def)

text \<open>
  C4. The claim is that a feature whose geometry fails to parse is left unchanged, that a
  warning is recorded, and that the loop goes on. The code leaves the feature unchanged and
  goes on with the remaining features, but prints nothing for it: the loop body returns no
  line, and the lines printed so far are passed on as they are.
\<close>

theorem parse_failure_no_warning:
  assumes "shape E (raw_geometry f) = Inl msg"
      and "count_coords_clip (raw_geometry f) = Inr n"
  shows "clip_feature E land_mask f = Inr (f, False, n, n, []) \<and>
         clip_features E land_mask (f # rest) t =
           (case clip_features E land_mask rest
                   (t\<lparr>coords_before_total := coords_before_total t + n,
                      coords_after_total := coords_after_total t + n\<rparr>) of
              Inl err \<Rightarrow> Inl err
            | Inr (rest', t') \<Rightarrow> Inr (f # rest', t'))"
proof -
  have skip: "clip_feature E land_mask f = Inr (f, False, n, n, [])"
    using assms(2) clip_geometry_parse_failure [OF assms(1)] by (rule clip_feature_skip)
  then show ?thesis by simp
qed

theorem parse_failure_no_warning_witness:
  "clip_boundary_file (example_engine (\<lambda>g. False))
     (SGeom False ''Polygon'' 1 [] \<lparr>gtype = ''Polygon'', coordinates = Arr []\<rparr>)
     [\<lparr>raw_id = Some ''EC_X'',
       raw_geometry =
         \<lparr>gtype = ''Polygon'',
          coordinates = Arr [Arr [Arr [Num 0, Num 50], Arr [Num 1, Num 50], Arr [Num 0, Num 50]]]\<rparr>\<rparr>]
   = Inr ([\<lparr>raw_id = Some ''EC_X'',
            raw_geometry =
              \<lparr>gtype = ''Polygon'',
               coordinates = Arr [Arr [Arr [Num 0, Num 50], Arr [Num 1, Num 50],
                                       Arr [Num 0, Num 50]]]\<rparr>\<rparr>],
          \<lparr>modified_count = 0, coords_before_total = 3, coords_after_total = 3,
           printed_lines = []\<rparr>)"
proof -
  let ?E = "example_engine (\<lambda>g. False)"
  let ?g = "\<lparr>gtype = ''Polygon'',
          coordinates = Arr [Arr [Arr [Num 0, Num 50], Arr [Num 1, Num 50], Arr [Num 0, Num 50]]]\<rparr>"
  let ?f = "\<lparr>raw_id = Some ''EC_X'', raw_geometry = ?g\<rparr>"
  have fails: "shape ?E (raw_geometry ?f) = Inl ''A LinearRing requires at least 4 coordinates.''"
    by (simp add: example_engine_def)
  have count: "count_coords_clip (raw_geometry ?f) = Inr 3"
    by (simp add: count_coords_clip_def)
  show ?thesis
    unfolding clip_boundary_file_def
    using parse_failure_no_warning [OF fails count, THEN conjunct2, of _ "[]"]
    by simp
qed

end
